theory Spec2Isabelle
  imports Main "HOL-Library.Multiset" "HOL-Library.Sublist"
begin

section \<open>Strings\<close>

text \<open>
  Go strings are byte sequences; they are modelled as \<^typ>\<open>string\<close>. The few functions of
  package \<^verbatim>\<open>strings\<close> that the program calls are written out on bytes.
  \<^verbatim>\<open>strings.ToLower\<close> maps every rune to its lower case. GitHub admits only ASCII in
  the names of owners and repositories, and on ASCII strings the function below is
  \<^verbatim>\<open>strings.ToLower\<close>: it maps the 26 capital letters and leaves every other byte as
  it is. It does not follow Go on letters outside ASCII.
\<close>

definition lower_byte :: "char \<Rightarrow> char" where
  "lower_byte c =
     (case map_of (zip ''ABCDEFGHIJKLMNOPQRSTUVWXYZ'' ''abcdefghijklmnopqrstuvwxyz'') c of
        Some l \<Rightarrow> l
      | None \<Rightarrow> c)"

definition ToLower :: "string \<Rightarrow> string" where
  "ToLower s = map lower_byte s"

text \<open>\<^verbatim>\<open>strings.HasPrefix\<close>, \<^verbatim>\<open>strings.Contains\<close>: a scan for the substring from every
  start position.\<close>

fun HasPrefix :: "string \<Rightarrow> string \<Rightarrow> bool" where
  "HasPrefix s [] = True"
| "HasPrefix [] (p # ps) = False"
| "HasPrefix (c # cs) (p # ps) = (c = p \<and> HasPrefix cs ps)"

fun Contains :: "string \<Rightarrow> string \<Rightarrow> bool" where
  "Contains [] sub = HasPrefix [] sub"
| "Contains (c # cs) sub = (HasPrefix (c # cs) sub \<or> Contains cs sub)"

text \<open>\<^verbatim>\<open>strings.HasSuffix\<close>, \<^verbatim>\<open>strings.TrimPrefix\<close>, \<^verbatim>\<open>strings.TrimSuffix\<close>.\<close>

definition HasSuffix :: "string \<Rightarrow> string \<Rightarrow> bool" where
  "HasSuffix s suf = HasPrefix (rev s) (rev suf)"

definition TrimPrefix :: "string \<Rightarrow> string \<Rightarrow> string" where
  "TrimPrefix s pre = (if HasPrefix s pre then drop (length pre) s else s)"

definition TrimSuffix :: "string \<Rightarrow> string \<Rightarrow> string" where
  "TrimSuffix s suf = (if HasSuffix s suf then take (length s - length suf) s else s)"

text \<open>
  \<^verbatim>\<open>strings.TrimSpace\<close> removes the leading and the trailing runes for which
  \<^verbatim>\<open>unicode.IsSpace\<close> holds. On the bytes of a string these runes are the UTF-8
  encodings below: tab, line feed, vertical tab, form feed, carriage return, space,
  U+0085, U+00A0, U+1680, U+2000 to U+200A, U+2028, U+2029, U+202F, U+205F and U+3000.
  A byte that starts no such encoding decodes to another rune (or to the error rune,
  one byte wide), which is not white space, and the trimming stops there. No encoding of
  the list is a prefix or a suffix of another, so at most one matches at either end.
\<close>

definition space_runes :: "string list" where
  "space_runes =
     [[CHR 0x09], [CHR 0x0A], [CHR 0x0B], [CHR 0x0C], [CHR 0x0D], [CHR 0x20],
      [CHR 0xC2, CHR 0x85], [CHR 0xC2, CHR 0xA0],
      [CHR 0xE1, CHR 0x9A, CHR 0x80],
      [CHR 0xE2, CHR 0x80, CHR 0x80], [CHR 0xE2, CHR 0x80, CHR 0x81],
      [CHR 0xE2, CHR 0x80, CHR 0x82], [CHR 0xE2, CHR 0x80, CHR 0x83],
      [CHR 0xE2, CHR 0x80, CHR 0x84], [CHR 0xE2, CHR 0x80, CHR 0x85],
      [CHR 0xE2, CHR 0x80, CHR 0x86], [CHR 0xE2, CHR 0x80, CHR 0x87],
      [CHR 0xE2, CHR 0x80, CHR 0x88], [CHR 0xE2, CHR 0x80, CHR 0x89],
      [CHR 0xE2, CHR 0x80, CHR 0x8A],
      [CHR 0xE2, CHR 0x80, CHR 0xA8], [CHR 0xE2, CHR 0x80, CHR 0xA9],
      [CHR 0xE2, CHR 0x80, CHR 0xAF],
      [CHR 0xE2, CHR 0x81, CHR 0x9F],
      [CHR 0xE3, CHR 0x80, CHR 0x80]]"

text \<open>The width of the encoding among \<open>ws\<close> that \<open>s\<close> starts with, 0 when there is
  none; then the loop that removes such encodings from the front.\<close>

definition lead_width :: "string list \<Rightarrow> string \<Rightarrow> nat" where
  "lead_width ws s = (case find (HasPrefix s) ws of Some w \<Rightarrow> length w | None \<Rightarrow> 0)"

lemma HasPrefix_length: "HasPrefix s w \<Longrightarrow> length w \<le> length s"
  by (induction s w rule: HasPrefix.induct) auto

lemma lead_width_le: "lead_width ws s \<le> length s"
  by (auto simp: lead_width_def find_Some_iff dest: HasPrefix_length split: option.splits)

function trim_front :: "string list \<Rightarrow> string \<Rightarrow> string" where
  "trim_front ws s =
     (if lead_width ws s = 0 then s else trim_front ws (drop (lead_width ws s) s))"
  by pat_completeness auto
termination
proof (relation "measure (\<lambda>(ws, s). length s)")
  show "wf (measure (\<lambda>(ws, s). length s))" by simp
next
  fix ws :: "string list" and s :: string
  assume "lead_width ws s \<noteq> 0"
  with lead_width_le [of ws s]
  show "((ws, drop (lead_width ws s) s), (ws, s)) \<in> measure (\<lambda>(ws, s). length s)"
    by simp
qed

declare trim_front.simps [simp del]

definition TrimSpace :: "string \<Rightarrow> string" where
  "TrimSpace s = rev (trim_front (map rev space_runes) (rev (trim_front space_runes s)))"

text \<open>The verb \<^verbatim>\<open>%d\<close> of \<^verbatim>\<open>fmt\<close>: an integer in decimal.\<close>

fun dec_nat :: "nat \<Rightarrow> string" where
  "dec_nat n =
     (if n < 10 then [''0123456789'' ! n]
      else dec_nat (n div 10) @ [''0123456789'' ! (n mod 10)])"

declare dec_nat.simps [simp del]

definition fmt_d :: "int \<Rightarrow> string" where
  "fmt_d i = (if i < 0 then CHR ''-'' # dec_nat (nat (- i)) else dec_nat (nat i))"

section \<open>Sorting\<close>

text \<open>
  \<^verbatim>\<open>sort.Slice(xs, less)\<close> leaves a permutation of \<^verbatim>\<open>xs\<close> in which no element is
  \<^verbatim>\<open>less\<close> than one before it; the order of elements that compare equal is not fixed
  by Go. The model sorts by insertion, which fixes one such order.
\<close>

fun sort_insert :: "('a \<Rightarrow> 'a \<Rightarrow> bool) \<Rightarrow> 'a \<Rightarrow> 'a list \<Rightarrow> 'a list" where
  "sort_insert lt x [] = [x]"
| "sort_insert lt x (y # ys) =
     (if lt x y then x # y # ys else y # sort_insert lt x ys)"

fun sort_Slice :: "('a \<Rightarrow> 'a \<Rightarrow> bool) \<Rightarrow> 'a list \<Rightarrow> 'a list" where
  "sort_Slice lt [] = []"
| "sort_Slice lt (x # xs) = sort_insert lt x (sort_Slice lt xs)"

section \<open>Entity filter (internal/mapper)\<close>

text \<open>
  \<^verbatim>\<open>github.Repo\<close> comes from the shared SDK; the record holds the fields this program
  reads. \<^verbatim>\<open>Homepage\<close> is a \<^verbatim>\<open>*string\<close>, \<^verbatim>\<open>PushedAt\<close> a \<^verbatim>\<open>time.Time\<close>, modelled as
  the instant it denotes (an integer count of time units).
\<close>

record Repo =
  repo_Name :: string
  repo_HTMLURL :: string
  repo_Homepage :: "string option"
  repo_Size :: int
  repo_Fork :: bool
  repo_Archived :: bool
  repo_PushedAt :: int

text \<open>
  \<^verbatim>\<open>FilterRepos\<close>: the loop over \<^verbatim>\<open>repos\<close> with the slice \<^verbatim>\<open>filtered\<close> it appends to.
  Each iteration either \<^verbatim>\<open>continue\<close>s or appends the repo.
\<close>

fun FilterRepos_loop :: "string \<Rightarrow> Repo list \<Rightarrow> Repo list \<Rightarrow> Repo list" where
  "FilterRepos_loop profileRepo filtered [] = filtered"
| "FilterRepos_loop profileRepo filtered (r # rs) =
     (if repo_Fork r \<or> repo_Archived r then FilterRepos_loop profileRepo filtered rs
      else if ToLower (repo_Name r) = profileRepo then FilterRepos_loop profileRepo filtered rs
      else FilterRepos_loop profileRepo (filtered @ [r]) rs)"

definition FilterRepos :: "Repo list \<Rightarrow> string \<Rightarrow> Repo list" where
  "FilterRepos repos username = FilterRepos_loop (ToLower username) [] repos"

text \<open>\<^verbatim>\<open>RawProject\<close>: what is known of a repository before enrichment.\<close>

record RawProject =
  raw_Name :: string
  raw_Slug :: string
  raw_GitHubURL :: string
  raw_LiveURL :: string
  raw_Languages :: "string list"
  raw_ReadmeRaw :: string
  raw_RepoSize :: int
  raw_PushedAt :: int

text \<open>
  \<^verbatim>\<open>sortedLanguages\<close> and \<^verbatim>\<open>ToRawProject\<close>. The language map is the list of its pairs in
  the order a \<^verbatim>\<open>range\<close> yields them.
\<close>

definition sortedLanguages :: "(string \<times> int) list \<Rightarrow> string list" where
  "sortedLanguages languages = map fst (sort_Slice (\<lambda>a b. snd b < snd a) languages)"

definition ToRawProject :: "Repo \<Rightarrow> (string \<times> int) list \<Rightarrow> string \<Rightarrow> RawProject" where
  "ToRawProject repo languages readme =
     \<lparr>raw_Name = repo_Name repo,
      raw_Slug = repo_Name repo,
      raw_GitHubURL = repo_HTMLURL repo,
      raw_LiveURL = (case repo_Homepage repo of None \<Rightarrow> [] | Some homepage \<Rightarrow> homepage),
      raw_Languages = sortedLanguages languages,
      raw_ReadmeRaw = readme,
      raw_RepoSize = repo_Size repo,
      raw_PushedAt = repo_PushedAt repo\<rparr>"

text \<open>The survivors of the filter, as the specification words them.\<close>

definition survives :: "string \<Rightarrow> Repo \<Rightarrow> bool" where
  "survives username r \<longleftrightarrow>
     \<not> repo_Fork r \<and> \<not> repo_Archived r \<and> ToLower (repo_Name r) \<noteq> ToLower username"


section \<open>Selection heuristic (internal/heuristic)\<close>

text \<open>
  \<^verbatim>\<open>contentful.Project\<close>. The composite literal in \<^verbatim>\<open>Enrich\<close> sets \<^verbatim>\<open>ShortDescription\<close>,
  so the record has that field beside the ones listed in \<^verbatim>\<open>types.go\<close>. \<^verbatim>\<open>PushedAt\<close>
  is the instant of the \<^verbatim>\<open>time.Time\<close>.
\<close>

record Project =
  proj_Name :: string
  proj_Slug :: string
  proj_ShortDescription :: string
  proj_Description :: string
  proj_LongDescription :: string
  proj_GithubURL :: string
  proj_Technologies :: "string list"
  proj_Highlights :: "string list"
  proj_Featured :: bool
  proj_Gradient :: string
  proj_Category :: string
  proj_PushedAt :: int

text \<open>\<^verbatim>\<open>time.Time.After\<close> on instants.\<close>

definition After :: "int \<Rightarrow> int \<Rightarrow> bool" where
  "After t u \<longleftrightarrow> u < t"

text \<open>The loop \<^verbatim>\<open>for i := range projects { projects[i].Featured = i < maxFeatured }\<close>,
  from index \<open>i\<close> on.\<close>

fun mark_featured :: "int \<Rightarrow> nat \<Rightarrow> Project list \<Rightarrow> Project list" where
  "mark_featured maxFeatured i [] = []"
| "mark_featured maxFeatured i (p # ps) =
     p\<lparr>proj_Featured := (int i < maxFeatured)\<rparr> # mark_featured maxFeatured (Suc i) ps"

text \<open>
  \<^verbatim>\<open>ApplyFeatured\<close>. The slice expression \<^verbatim>\<open>projects[:maxTotal]\<close> runs when
  \<^verbatim>\<open>len(projects) > maxTotal\<close>; with a negative \<^verbatim>\<open>maxTotal\<close> it panics.
\<close>

datatype panic = SliceBoundsOutOfRange

definition ApplyFeatured :: "Project list \<Rightarrow> int \<Rightarrow> int \<Rightarrow> panic + Project list" where
  "ApplyFeatured projects maxFeatured maxTotal =
     (let ranked = sort_Slice (\<lambda>a b. After (proj_PushedAt a) (proj_PushedAt b)) projects
      in if maxTotal < int (length ranked)
         then (if maxTotal < 0 then Inl SliceBoundsOutOfRange
               else Inr (mark_featured maxFeatured 0 (take (nat maxTotal) ranked)))
         else Inr (mark_featured maxFeatured 0 ranked))"

text \<open>A project with its featured flag cleared: what the heuristic must leave alone.\<close>

definition unflag :: "Project \<Rightarrow> Project" where
  "unflag p = p\<lparr>proj_Featured := False\<rparr>"

definition newest_first :: "Project list \<Rightarrow> bool" where
  "newest_first ps = sorted_wrt (\<lambda>a b. proj_PushedAt b \<le> proj_PushedAt a) ps"

section \<open>Batch enricher (internal/enricher)\<close>

record enrichedData =
  data_Name :: string
  data_ShortDescription :: string
  data_Description :: string
  data_LongDescription :: string
  data_Technologies :: "string list"
  data_Highlights :: "string list"
  data_Category :: string
  data_Gradient :: string

definition maxRetries :: nat where
  "maxRetries = 3"

text \<open>\<^verbatim>\<open>stripMarkdownFences\<close>; the fence is three backquotes (byte 0x60).\<close>

definition fence :: string where
  "fence = [CHR 0x60, CHR 0x60, CHR 0x60]"

definition stripMarkdownFences :: "string \<Rightarrow> string" where
  "stripMarkdownFences s0 =
     (let s1 = TrimSpace s0;
          s2 = (if HasPrefix s1 (fence @ ''json'') then TrimPrefix s1 (fence @ ''json'')
                else if HasPrefix s1 fence then TrimPrefix s1 fence
                else s1);
          s3 = TrimSuffix s2 fence
      in TrimSpace s3)"

text \<open>
  The retry loop of \<^verbatim>\<open>Enrich\<close>. What lies outside the program is an input:
  \<^item> \<open>gen k\<close> is what the call of \<^verbatim>\<open>gemini.GenerateContent\<close> in iteration \<open>k\<close> returns,
    the response text and the error (\<open>None\<close> for \<^verbatim>\<open>nil\<close>, else the text of
    \<^verbatim>\<open>err.Error()\<close>); the prompt that \<^verbatim>\<open>buildBatchPrompt\<close> makes of the projects is the
    same in every call and reaches nothing but the generator;
  \<^item> \<open>cancelled k\<close> says that, in the \<^verbatim>\<open>select\<close> before attempt \<open>k\<close>, the context is
    done before the backoff has passed; \<open>ctx_err\<close> is the text of \<^verbatim>\<open>ctx.Err()\<close>.
  The loop carries the variables \<^verbatim>\<open>response\<close> and \<^verbatim>\<open>lastErr\<close>, and the number of calls
  made so far. It leaves either by a \<^verbatim>\<open>return\<close> inside the body or to the code after it.
\<close>

datatype loop_exit =
    Returned string nat
  | Finished string "string option" nat

function retry_loop ::
  "(nat \<Rightarrow> string \<times> string option) \<Rightarrow> (nat \<Rightarrow> bool) \<Rightarrow> string \<Rightarrow>
   nat \<Rightarrow> string \<Rightarrow> string option \<Rightarrow> nat \<Rightarrow> loop_exit" where
  "retry_loop gen cancelled ctx_err attempt response lastErr calls =
     (if attempt \<le> maxRetries then
        (if 0 < attempt \<and> cancelled attempt then Returned ctx_err calls
         else case gen attempt of
                (r, None) \<Rightarrow> Finished r lastErr (Suc calls)
              | (r, Some err) \<Rightarrow>
                  if \<not> Contains err ''429'' \<and> \<not> Contains err ''RESOURCE_EXHAUSTED''
                  then Returned (''gemini: '' @ err) (Suc calls)
                  else retry_loop gen cancelled ctx_err (Suc attempt) r (Some err) (Suc calls))
      else Finished response lastErr calls)"
  by pat_completeness auto
termination
  by (relation "measure (\<lambda>(gen, cancelled, ctx_err, attempt, response, lastErr, calls).
                  Suc maxRetries - attempt)") auto

text \<open>The loop that matches by position: index \<open>i\<close>, the slice \<^verbatim>\<open>result\<close> it appends to.\<close>

definition enriched_project :: "RawProject \<Rightarrow> enrichedData \<Rightarrow> Project" where
  "enriched_project raw d =
     \<lparr>proj_Name = data_Name d,
      proj_Slug = raw_Slug raw,
      proj_ShortDescription = data_ShortDescription d,
      proj_Description = data_Description d,
      proj_LongDescription = data_LongDescription d,
      proj_GithubURL = raw_GitHubURL raw,
      proj_Technologies = data_Technologies d,
      proj_Highlights = data_Highlights d,
      proj_Featured = False,
      proj_Gradient = data_Gradient d,
      proj_Category = data_Category d,
      proj_PushedAt = raw_PushedAt raw\<rparr>"

fun match_loop ::
  "enrichedData list \<Rightarrow> nat \<Rightarrow> RawProject list \<Rightarrow> Project list \<Rightarrow> Project list" where
  "match_loop dataList i [] result = result"
| "match_loop dataList i (raw # rest) result =
     (if length dataList \<le> i then match_loop dataList (Suc i) rest result
      else match_loop dataList (Suc i) rest
             (result @ [enriched_project raw (dataList ! i)]))"

text \<open>
  \<^verbatim>\<open>Enrich\<close>. \<open>unmarshal\<close> stands for \<^verbatim>\<open>json.Unmarshal\<close> into a \<^verbatim>\<open>[]enrichedData\<close>
  (\<open>Inl\<close> the text of its error). The result is the number of calls of the generator
  and what \<^verbatim>\<open>Enrich\<close> returns: \<open>Inl\<close> the text of the error, \<open>Inr\<close> the projects.
\<close>

definition Enrich ::
  "(nat \<Rightarrow> string \<times> string option) \<Rightarrow> (nat \<Rightarrow> bool) \<Rightarrow> string \<Rightarrow>
   (string \<Rightarrow> string + enrichedData list) \<Rightarrow> RawProject list \<Rightarrow>
   nat \<times> (string + Project list)" where
  "Enrich gen cancelled ctx_err unmarshal projects =
     (case retry_loop gen cancelled ctx_err 0 [] None 0 of
        Returned err calls \<Rightarrow> (calls, Inl err)
      | Finished response lastErr calls \<Rightarrow>
          (case (if response = [] then lastErr else None) of
             Some err \<Rightarrow>
               (calls, Inl (''gemini after '' @ fmt_d (int maxRetries) @ '' retries: '' @ err))
           | None \<Rightarrow>
               (case unmarshal (stripMarkdownFences response) of
                  Inl err \<Rightarrow> (calls, Inl (''parse gemini response: '' @ err))
                | Inr dataList \<Rightarrow> (calls, Inr (match_loop dataList 0 projects [])))))"

text \<open>The output matched by position with the parsed array, as the specification words
  it.\<close>

definition matched_by_position ::
  "RawProject list \<Rightarrow> enrichedData list \<Rightarrow> Project list \<Rightarrow> bool" where
  "matched_by_position projects dataList out \<longleftrightarrow>
     length out = min (length projects) (length dataList) \<and>
     (\<forall>i<length out.
        out ! i =
          \<lparr>proj_Name = data_Name (dataList ! i),
           proj_Slug = raw_Slug (projects ! i),
           proj_ShortDescription = data_ShortDescription (dataList ! i),
           proj_Description = data_Description (dataList ! i),
           proj_LongDescription = data_LongDescription (dataList ! i),
           proj_GithubURL = raw_GitHubURL (projects ! i),
           proj_Technologies = data_Technologies (dataList ! i),
           proj_Highlights = data_Highlights (dataList ! i),
           proj_Featured = False,
           proj_Gradient = data_Gradient (dataList ! i),
           proj_Category = data_Category (dataList ! i),
           proj_PushedAt = raw_PushedAt (projects ! i)\<rparr>)"

text \<open>An error that signals rate limiting, as the specification words it.\<close>

definition rate_limited :: "string \<Rightarrow> bool" where
  "rate_limited err \<longleftrightarrow> Contains err ''429'' \<or> Contains err ''RESOURCE_EXHAUSTED''"

section \<open>Remote store client (internal/contentful)\<close>

text \<open>
  A field of an entry is whatever \<^verbatim>\<open>encoding/json\<close> decodes into an \<^verbatim>\<open>interface{}\<close>:
  \<^verbatim>\<open>nil\<close>, a boolean, a number (kept as its literal), a string, a slice or a
  \<^verbatim>\<open>map[string]interface{}\<close>. The pairs of an object stand in the order in which a
  \<^verbatim>\<open>range\<close> over the map yields them; Go does not fix that order, and the theorems hold
  for every order.
\<close>

datatype json =
    JNull
  | JBool bool
  | JNumber string
  | JString string
  | JArray "json list"
  | JObject "(string \<times> json) list"

text \<open>\<^verbatim>\<open>servicekit.EntryItem\<close>: \<^verbatim>\<open>Sys.ID\<close>, \<^verbatim>\<open>Sys.Version\<close> and the map \<^verbatim>\<open>Fields\<close>.\<close>

record EntryItem =
  sys_ID :: string
  sys_Version :: int
  entry_Fields :: "string \<rightharpoonup> json"

record ProjectsResult =
  res_Projects :: "Project list"
  res_EntryID :: string
  res_Version :: int
  res_RawFields :: "string \<rightharpoonup> json"

text \<open>
  \<^verbatim>\<open>json.Marshal\<close> of the selected value followed by \<^verbatim>\<open>json.Unmarshal\<close> into a
  \<^verbatim>\<open>[]Project\<close>, by the shape of the value: \<^verbatim>\<open>null\<close> leaves the slice \<^verbatim>\<open>nil\<close>, an array is
  decoded element by element and the first error is the error returned, any other value
  is a type error. How one element is decoded is the parameter \<open>elem\<close>.
\<close>

definition cannot_unmarshal :: "string \<Rightarrow> string" where
  "cannot_unmarshal kind =
     ''json: cannot unmarshal '' @ kind @ '' into Go value of type []contentful.Project''"

fun unmarshal_elems :: "(json \<Rightarrow> string + Project) \<Rightarrow> json list \<Rightarrow> string + Project list" where
  "unmarshal_elems elem [] = Inr []"
| "unmarshal_elems elem (x # xs) =
     (case elem x of
        Inl err \<Rightarrow> Inl err
      | Inr p \<Rightarrow> (case unmarshal_elems elem xs of Inl err \<Rightarrow> Inl err | Inr ps \<Rightarrow> Inr (p # ps)))"

fun unmarshal_projects :: "(json \<Rightarrow> string + Project) \<Rightarrow> json \<Rightarrow> string + Project list" where
  "unmarshal_projects elem JNull = Inr []"
| "unmarshal_projects elem (JArray xs) = unmarshal_elems elem xs"
| "unmarshal_projects elem (JBool b) = Inl (cannot_unmarshal ''bool'')"
| "unmarshal_projects elem (JNumber n) = Inl (cannot_unmarshal ''number'')"
| "unmarshal_projects elem (JString t) = Inl (cannot_unmarshal ''string'')"
| "unmarshal_projects elem (JObject kvs) = Inl (cannot_unmarshal ''object'')"

text \<open>
  \<^verbatim>\<open>GetProjects\<close>. The two lookups are inputs: \<open>getEntry\<close> is what \<^verbatim>\<open>c.GetEntry\<close> returns
  and \<open>bySectionID\<close> what \<^verbatim>\<open>c.findProjectsBySectionID\<close> returns (\<open>Inl\<close> the text of the
  error). The result is the pair \<^verbatim>\<open>(*ProjectsResult, error)\<close>, \<open>None\<close> for \<^verbatim>\<open>nil\<close>.
  The value chosen from the locale map is the one under \<^verbatim>\<open>en-US\<close>, else the first one a
  \<^verbatim>\<open>range\<close> yields, else \<^verbatim>\<open>nil\<close>.
\<close>

definition rawContent_of :: "(string \<times> json) list \<Rightarrow> json" where
  "rawContent_of localeMap =
     (case map_of localeMap ''en-US'' of
        Some v \<Rightarrow> v
      | None \<Rightarrow> (case localeMap of [] \<Rightarrow> JNull | (k, v) # rest \<Rightarrow> v))"

definition GetProjects ::
  "(json \<Rightarrow> string + Project) \<Rightarrow> string + EntryItem \<Rightarrow> string + EntryItem \<Rightarrow>
   ProjectsResult option \<times> string option" where
  "GetProjects elem getEntry bySectionID =
     (case (case getEntry of Inr entry \<Rightarrow> Inr entry | Inl err \<Rightarrow> bySectionID) of
        Inl err \<Rightarrow> (None, Some (''get projects entry: '' @ err))
      | Inr entry \<Rightarrow>
          (case entry_Fields entry ''content'' of
             None \<Rightarrow>
               (Some \<lparr>res_Projects = [], res_EntryID = sys_ID entry,
                      res_Version = sys_Version entry, res_RawFields = entry_Fields entry\<rparr>,
                None)
           | Some (JObject localeMap) \<Rightarrow>
               (case unmarshal_projects elem (rawContent_of localeMap) of
                  Inl err \<Rightarrow> (None, Some (''unmarshal projects: '' @ err))
                | Inr projects \<Rightarrow>
                    (Some \<lparr>res_Projects = projects, res_EntryID = sys_ID entry,
                           res_Version = sys_Version entry,
                           res_RawFields = entry_Fields entry\<rparr>,
                     None))
           | Some contentField \<Rightarrow>
               (Some \<lparr>res_Projects = [], res_EntryID = sys_ID entry,
                      res_Version = sys_Version entry, res_RawFields = entry_Fields entry\<rparr>,
                Some ''content field is not locale-wrapped'')))"

text \<open>
  \<^verbatim>\<open>UpdateProjects\<close>. A value of the map \<^verbatim>\<open>fields\<close> is either a field as it was read or
  the new locale map of projects. The request is kept as it is built, before
  \<^verbatim>\<open>json.Marshal\<close> turns the body into bytes (which cannot fail on these values).
\<close>

datatype field_value =
    Existing json
  | Localized "(string \<times> Project list) list"

record http_request =
  req_Method :: string
  req_URL :: string
  req_Header :: "string \<rightharpoonup> string"
  req_fields :: "string \<rightharpoonup> field_value"

text \<open>A response: the status code and what \<^verbatim>\<open>io.ReadAll\<close> makes of the body.\<close>

record http_response =
  resp_StatusCode :: int
  resp_Body :: "string + string"

text \<open>The loop that copies \<^verbatim>\<open>result.RawFields\<close> entry by entry, then the assignment to
  \<^verbatim>\<open>fields["content"]\<close>.\<close>

definition update_fields :: "ProjectsResult \<Rightarrow> Project list \<Rightarrow> string \<rightharpoonup> field_value" where
  "update_fields result projects =
     (\<lambda>k. map_option Existing (res_RawFields result k))
       (''content'' \<mapsto> Localized [(''en-US'', projects)])"

definition update_request ::
  "string \<Rightarrow> string \<Rightarrow> string \<Rightarrow> ProjectsResult \<Rightarrow> Project list \<Rightarrow> http_request" where
  "update_request CMABaseURL SpaceID Token result projects =
     \<lparr>req_Method = ''PUT'',
      req_URL = CMABaseURL @ ''/spaces/'' @ SpaceID @ ''/environments/master/entries/''
                @ res_EntryID result,
      req_Header = [''Authorization'' \<mapsto> ''Bearer '' @ Token,
                    ''Content-Type'' \<mapsto> ''application/vnd.contentful.management.v1+json'',
                    ''X-Contentful-Version'' \<mapsto> fmt_d (res_Version result)],
      req_fields = update_fields result projects\<rparr>"

text \<open>
  The surroundings of \<^verbatim>\<open>UpdateProjects\<close> are inputs: the constant \<^verbatim>\<open>servicekit.CMABaseURL\<close>,
  the space and token of the client, \<open>new_request_error\<close> (the error of
  \<^verbatim>\<open>http.NewRequestWithContext\<close> on a URL, if any), \<open>do\<close> (what \<^verbatim>\<open>c.HTTPClient.Do\<close>
  returns for a request) and \<open>decode_version\<close> (the version in the decoded response
  body). The result is \<open>Inl\<close> the text of the error or \<open>Inr\<close> the new version.
\<close>

definition UpdateProjects ::
  "string \<Rightarrow> string \<Rightarrow> string \<Rightarrow> (string \<Rightarrow> string option) \<Rightarrow>
   (http_request \<Rightarrow> string + http_response) \<Rightarrow> (string \<Rightarrow> string + int) \<Rightarrow>
   ProjectsResult \<Rightarrow> Project list \<Rightarrow> string + int" where
  "UpdateProjects CMABaseURL SpaceID Token new_request_error do decode_version result projects =
     (let req = update_request CMABaseURL SpaceID Token result projects
      in case new_request_error (req_URL req) of
           Some err \<Rightarrow> Inl err
         | None \<Rightarrow>
             (case do req of
                Inl err \<Rightarrow> Inl err
              | Inr resp \<Rightarrow>
                  if resp_StatusCode resp \<noteq> 200 then
                    (case resp_Body resp of
                       Inl err \<Rightarrow>
                         Inl (''CMA update failed ('' @ fmt_d (resp_StatusCode resp)
                              @ ''): could not read body: '' @ err)
                     | Inr respBody \<Rightarrow>
                         Inl (''CMA update failed ('' @ fmt_d (resp_StatusCode resp)
                              @ ''): '' @ respBody))
                  else
                    (case resp_Body resp of
                       Inl err \<Rightarrow> Inl (''decode update response: '' @ err)
                     | Inr text \<Rightarrow>
                         (case decode_version text of
                            Inl err \<Rightarrow> Inl (''decode update response: '' @ err)
                          | Inr version \<Rightarrow> Inr version))))"

section \<open>Detail collector (internal/syncer)\<close>

text \<open>
  What one goroutine of \<^verbatim>\<open>fetchDetails\<close> meets: its repo, what \<^verbatim>\<open>GetRepoLanguages\<close>
  returns (\<open>Inl\<close> the text of its error) and what \<^verbatim>\<open>GetRepoREADME\<close> returns, the text and
  the error beside it (\<open>None\<close> for \<^verbatim>\<open>nil\<close>). On a failed language fetch the code assigns
  the empty map; on a failed readme fetch it logs and keeps the text that came with the
  error.
\<close>

record fetch_task =
  task_repo :: Repo
  task_languages :: "string + (string \<times> int) list"
  task_readme :: "string \<times> string option"

definition worker :: "fetch_task \<Rightarrow> RawProject" where
  "worker t =
     (let languages = (case task_languages t of Inl err \<Rightarrow> [] | Inr m \<Rightarrow> m);
          readme = fst (task_readme t)
      in ToRawProject (task_repo t) languages readme)"

text \<open>
  The goroutines append to \<^verbatim>\<open>rawProjects\<close> under the mutex, one at a time and each
  exactly once, in the order in which they get there. That order is the input \<open>sched\<close>:
  its next number picks, among the goroutines still running, the one that appends next
  (when it runs out they append in the order of the input). \<^verbatim>\<open>wg.Wait\<close> returns when none
  is left.
\<close>

function run_workers :: "nat list \<Rightarrow> fetch_task list \<Rightarrow> RawProject list \<Rightarrow> RawProject list" where
  "run_workers sched [] rawProjects = rawProjects"
| "run_workers [] (t # ts) rawProjects = run_workers [] ts (rawProjects @ [worker t])"
| "run_workers (c # cs) (t # ts) rawProjects =
     (let i = c mod length (t # ts)
      in run_workers cs (take i (t # ts) @ drop (Suc i) (t # ts))
           (rawProjects @ [worker ((t # ts) ! i)]))"
  by pat_completeness auto
termination
  by (relation "measure (\<lambda>(sched, pending, rawProjects). length pending)") auto

text \<open>\<^verbatim>\<open>fetchDetails\<close> returns \<^verbatim>\<open>rawProjects\<close> and \<^verbatim>\<open>firstErr\<close>, a variable that is declared
  and never assigned.\<close>

definition fetchDetails :: "nat list \<Rightarrow> fetch_task list \<Rightarrow> RawProject list \<times> string option" where
  "fetchDetails sched tasks =
     (let firstErr = None; rawProjects = run_workers sched tasks []
      in case firstErr of Some err \<Rightarrow> ([], Some err) | None \<Rightarrow> (rawProjects, None))"

section \<open>Audit log recorder (cmd/sync.go)\<close>

text \<open>\<^verbatim>\<open>servicekit.BuildLogEntry\<close> and \<^verbatim>\<open>servicekit.BuildLogResult\<close>, with the fields the
  program sets and reads; \<^verbatim>\<open>syncer.SyncStats\<close>.\<close>

record BuildLogEntry =
  log_Service :: string
  log_Timestamp :: string
  log_TriggeredBy :: string
  log_ForceUpdate :: bool
  log_TranslationUsed :: bool
  log_NewAdded :: int
  log_TotalAfterSync :: int
  log_Status :: string

record BuildLogResult =
  blr_Entries :: "BuildLogEntry list"
  blr_EntryID :: string
  blr_Version :: int

record SyncStats =
  stats_NewAdded :: int
  stats_Total :: int
  stats_Status :: string

definition serviceName :: string where
  "serviceName = ''github-cms-sync''"

text \<open>The loop that splits the entries read into \<^verbatim>\<open>ownEntries\<close> and \<^verbatim>\<open>otherEntries\<close>.\<close>

fun split_entries ::
  "BuildLogEntry list \<Rightarrow> BuildLogEntry list \<Rightarrow> BuildLogEntry list \<Rightarrow>
   BuildLogEntry list \<times> BuildLogEntry list" where
  "split_entries [] ownEntries otherEntries = (ownEntries, otherEntries)"
| "split_entries (e # es) ownEntries otherEntries =
     (if log_Service e = serviceName then split_entries es (ownEntries @ [e]) otherEntries
      else split_entries es ownEntries (otherEntries @ [e]))"

text \<open>\<^verbatim>\<open>allLogEntries\<close>: the cap on the own entries and the two \<^verbatim>\<open>append\<close>s.\<close>

definition allLogEntries :: "BuildLogEntry list \<Rightarrow> BuildLogEntry \<Rightarrow> BuildLogEntry list" where
  "allLogEntries entries logEntry =
     (case split_entries entries [] [] of
        (ownEntries, otherEntries) \<Rightarrow>
          (let capped = (if 3 \<le> length ownEntries
                         then drop (length ownEntries - 2) ownEntries else ownEntries)
           in otherEntries @ (capped @ [logEntry])))"

text \<open>
  \<^verbatim>\<open>recordBuildLog\<close> up to the write. Its surroundings are inputs: the value of the
  environment variable \<^verbatim>\<open>GITHUB_ACTIONS\<close>, the formatted current time, the force flag
  of the configuration, the statistics of the run and what \<^verbatim>\<open>GetBuildLog\<close> returned
  (\<open>Inl\<close> its error). The result is the write it issues: none when the read failed,
  \<^verbatim>\<open>CreateBuildLog\<close> when the entry read has no identifier, \<^verbatim>\<open>UpdateBuildLog\<close>
  otherwise. A failure of the write or of the publish after it is only logged.
\<close>

datatype audit_write =
    NoWrite
  | CreateBuildLog "BuildLogEntry list"
  | UpdateBuildLog BuildLogResult "BuildLogEntry list"

definition new_logEntry :: "string \<Rightarrow> string \<Rightarrow> bool \<Rightarrow> SyncStats \<Rightarrow> BuildLogEntry" where
  "new_logEntry github_actions now forceUpdate stats =
     \<lparr>log_Service = serviceName,
      log_Timestamp = now,
      log_TriggeredBy = (if github_actions = ''true'' then ''github-actions'' else ''local''),
      log_ForceUpdate = forceUpdate,
      log_TranslationUsed = False,
      log_NewAdded = stats_NewAdded stats,
      log_TotalAfterSync = stats_Total stats,
      log_Status = stats_Status stats\<rparr>"

definition recordBuildLog ::
  "string \<Rightarrow> string \<Rightarrow> bool \<Rightarrow> SyncStats \<Rightarrow> string + BuildLogResult \<Rightarrow> audit_write" where
  "recordBuildLog github_actions now forceUpdate stats fetched =
     (let logEntry = new_logEntry github_actions now forceUpdate stats
      in case fetched of
           Inl err \<Rightarrow> NoWrite
         | Inr buildLogResult \<Rightarrow>
             (let entries = allLogEntries (blr_Entries buildLogResult) logEntry
              in if blr_EntryID buildLogResult = [] then CreateBuildLog entries
                 else UpdateBuildLog buildLogResult entries))"

text \<open>The entries of this service and of the others, as the specification words them,
  and the list a write stores.\<close>

definition own_entries :: "BuildLogEntry list \<Rightarrow> BuildLogEntry list" where
  "own_entries es = filter (\<lambda>e. log_Service e = serviceName) es"

definition others_entries :: "BuildLogEntry list \<Rightarrow> BuildLogEntry list" where
  "others_entries es = filter (\<lambda>e. log_Service e \<noteq> serviceName) es"

fun stored :: "audit_write \<Rightarrow> BuildLogEntry list option" where
  "stored NoWrite = None"
| "stored (CreateBuildLog es) = Some es"
| "stored (UpdateBuildLog r es) = Some es"

section \<open>Configuration (internal/config)\<close>

text \<open>
  \<^verbatim>\<open>strconv.Atoi\<close> for a 64-bit \<^verbatim>\<open>int\<close>: an optional sign, then one or more decimal
  digits, and a value that fits; \<open>None\<close> stands for a non-nil error. \<^verbatim>\<open>strconv.ParseBool\<close>
  returns \<^verbatim>\<open>false\<close> together with its error.
\<close>

definition is_digit :: "char \<Rightarrow> bool" where
  "is_digit c \<longleftrightarrow> c \<in> set ''0123456789''"

definition digit_val :: "char \<Rightarrow> int" where
  "digit_val c = int (length (takeWhile (\<lambda>d. d \<noteq> c) ''0123456789''))"

fun digits_val :: "int \<Rightarrow> string \<Rightarrow> int" where
  "digits_val n [] = n"
| "digits_val n (c # cs) = digits_val (n * 10 + digit_val c) cs"

definition Atoi :: "string \<Rightarrow> int option" where
  "Atoi s =
     (let neg = (s \<noteq> [] \<and> hd s = CHR ''-'');
          ds = (if s \<noteq> [] \<and> (hd s = CHR ''-'' \<or> hd s = CHR ''+'') then tl s else s)
      in if ds = [] \<or> \<not> list_all is_digit ds then None
         else (let n = digits_val 0 ds; v = (if neg then - n else n)
               in if - (2 ^ 63) \<le> v \<and> v \<le> 2 ^ 63 - 1 then Some v else None))"

definition ParseBool :: "string \<Rightarrow> bool \<times> string option" where
  "ParseBool str =
     (if str \<in> set [''1'', ''t'', ''T'', ''TRUE'', ''true'', ''True''] then (True, None)
      else if str \<in> set [''0'', ''f'', ''F'', ''FALSE'', ''false'', ''False''] then (False, None)
      else (False, Some (''strconv.ParseBool: parsing '' @ str @ '': invalid syntax'')))"

record Config =
  cfg_GitHubUsername :: string
  cfg_GitHubToken :: string
  cfg_SpaceID :: string
  cfg_CMAToken :: string
  cfg_EntryID :: string
  cfg_GeminiAPIKey :: string
  cfg_MaxFeatured :: int
  cfg_MaxProjects :: int
  cfg_ForceUpdate :: bool

text \<open>The environment is a function from names to values; \<^verbatim>\<open>os.Getenv\<close> of a variable
  that is not set is the empty string.\<close>

definition envInt :: "(string \<Rightarrow> string) \<Rightarrow> string \<Rightarrow> int \<Rightarrow> int" where
  "envInt env key defaultVal =
     (let v = env key
      in if v \<noteq> [] then (case Atoi v of Some n \<Rightarrow> n | None \<Rightarrow> defaultVal)
         else defaultVal)"

definition Load :: "(string \<Rightarrow> string) \<Rightarrow> string + Config" where
  "Load env =
     (let username = (if env ''GITHUB_USERNAME'' = [] then ''alberto-moreno-sa''
                      else env ''GITHUB_USERNAME'')
      in if env ''CONTENTFUL_SPACE_ID'' = [] then Inl ''CONTENTFUL_SPACE_ID is required''
         else if env ''CONTENTFUL_CMA_TOKEN'' = [] then Inl ''CONTENTFUL_CMA_TOKEN is required''
         else if env ''CONTENTFUL_ENTRY_ID'' = [] then Inl ''CONTENTFUL_ENTRY_ID is required''
         else if env ''GEMINI_API_KEY'' = [] then Inl ''GEMINI_API_KEY is required''
         else Inr \<lparr>cfg_GitHubUsername = username,
                   cfg_GitHubToken = env ''GITHUB_TOKEN'',
                   cfg_SpaceID = env ''CONTENTFUL_SPACE_ID'',
                   cfg_CMAToken = env ''CONTENTFUL_CMA_TOKEN'',
                   cfg_EntryID = env ''CONTENTFUL_ENTRY_ID'',
                   cfg_GeminiAPIKey = env ''GEMINI_API_KEY'',
                   cfg_MaxFeatured = envInt env ''MAX_FEATURED'' 5,
                   cfg_MaxProjects = envInt env ''MAX_PROJECTS'' 15,
                   cfg_ForceUpdate = fst (ParseBool (env ''FORCE_UPDATE''))\<rparr>)"

section \<open>Sample data\<close>

text \<open>Concrete values on which the theorems below are instantiated.\<close>

definition sample_project :: "string \<Rightarrow> int \<Rightarrow> bool \<Rightarrow> Project" where
  "sample_project slug t f =
     \<lparr>proj_Name = slug, proj_Slug = slug, proj_ShortDescription = [], proj_Description = [],
      proj_LongDescription = [], proj_GithubURL = [], proj_Technologies = [],
      proj_Highlights = [], proj_Featured = f, proj_Gradient = [], proj_Category = [],
      proj_PushedAt = t\<rparr>"

definition sample_entry :: "string \<Rightarrow> string \<Rightarrow> BuildLogEntry" where
  "sample_entry service stamp =
     \<lparr>log_Service = service, log_Timestamp = stamp, log_TriggeredBy = ''local'',
      log_ForceUpdate = False, log_TranslationUsed = False, log_NewAdded = 0,
      log_TotalAfterSync = 0, log_Status = ''success''\<rparr>"

definition sample_log :: "BuildLogEntry list" where
  "sample_log =
     [sample_entry ''github-cms-sync'' ''t1'', sample_entry ''blog-sync'' ''t2'',
      sample_entry ''github-cms-sync'' ''t3'', sample_entry ''github-cms-sync'' ''t4'',
      sample_entry ''translator'' ''t5'', sample_entry ''github-cms-sync'' ''t6'',
      sample_entry ''blog-sync'' ''t7'', sample_entry ''github-cms-sync'' ''t8'']"

definition sample_raw :: "string \<Rightarrow> int \<Rightarrow> RawProject" where
  "sample_raw name t =
     \<lparr>raw_Name = name, raw_Slug = name, raw_GitHubURL = ''https://github.com/o/'' @ name,
      raw_LiveURL = [], raw_Languages = [''Go''], raw_ReadmeRaw = ''readme'',
      raw_RepoSize = 1, raw_PushedAt = t\<rparr>"

text \<open>
  A response in a fenced block: the JSON text \<^verbatim>\<open>[{"name":"A"}]\<close> between two fences,
  the first with the tag \<^verbatim>\<open>json\<close>. \<open>sample_unmarshal\<close> gives what \<^verbatim>\<open>json.Unmarshal\<close>
  gives on this text (one object with a name, every other field at its zero value) and on
  the text \<^verbatim>\<open>[]\<close> (an empty slice); it stands for the decoder on these two texts only.
\<close>

definition sample_data :: "string \<Rightarrow> enrichedData" where
  "sample_data name =
     \<lparr>data_Name = name, data_ShortDescription = [], data_Description = [],
      data_LongDescription = [], data_Technologies = [], data_Highlights = [],
      data_Category = [], data_Gradient = []\<rparr>"

definition sample_json :: string where
  "sample_json =
     ''[{'' @ [CHR 0x22] @ ''name'' @ [CHR 0x22] @ '':'' @ [CHR 0x22] @ ''A'' @ [CHR 0x22] @ ''}]''"

definition sample_response :: string where
  "sample_response = fence @ ''json'' @ [CHR 0x0A] @ sample_json @ [CHR 0x0A] @ fence"

definition sample_unmarshal :: "string \<Rightarrow> string + enrichedData list" where
  "sample_unmarshal s =
     (if s = sample_json then Inr [sample_data ''A'']
      else if s = ''[]'' then Inr []
      else Inl ''invalid character'')"

text \<open>An environment with the four required variables and three optional ones that do
  not parse.\<close>

definition sample_env :: "string \<Rightarrow> string" where
  "sample_env key =
     (case map_of [(''CONTENTFUL_SPACE_ID'', ''space''), (''CONTENTFUL_CMA_TOKEN'', ''token''),
                   (''CONTENTFUL_ENTRY_ID'', ''projects''), (''GEMINI_API_KEY'', ''key''),
                   (''MAX_FEATURED'', ''five''), (''MAX_PROJECTS'', ''1e3''),
                   (''FORCE_UPDATE'', ''yes'')] key of
        Some v \<Rightarrow> v
      | None \<Rightarrow> [])"

text \<open>An entry whose container holds a string under the default locale, and one entry
  read with an unrelated field beside the container.\<close>

definition sample_bad_entry :: EntryItem where
  "sample_bad_entry =
     \<lparr>sys_ID = ''6aB'', sys_Version = 12,
      entry_Fields = [''title'' \<mapsto> JString ''Projects'',
                      ''content'' \<mapsto> JObject [(''en-US'', JString ''oops'')]]\<rparr>"

definition sample_result :: ProjectsResult where
  "sample_result =
     \<lparr>res_Projects = [], res_EntryID = ''6aB'', res_Version = 12,
      res_RawFields = [''title'' \<mapsto> JString ''Projects'',
                       ''content'' \<mapsto> JObject [(''en-US'', JArray [])]]\<rparr>"

definition sample_conflict :: "http_request \<Rightarrow> string + http_response" where
  "sample_conflict req = Inr \<lparr>resp_StatusCode = 409, resp_Body = Inr ''VersionMismatch''\<rparr>"

text \<open>Two repositories: the language fetch fails for the first, the readme fetch for the
  second.\<close>

definition sample_repo :: "string \<Rightarrow> Repo" where
  "sample_repo name =
     \<lparr>repo_Name = name, repo_HTMLURL = ''https://github.com/o/'' @ name, repo_Homepage = None,
      repo_Size = 1, repo_Fork = False, repo_Archived = False, repo_PushedAt = 5\<rparr>"

definition sample_tasks :: "fetch_task list" where
  "sample_tasks =
     [\<lparr>task_repo = sample_repo ''a'', task_languages = Inl ''403 rate limit'',
       task_readme = (''# a'', None)\<rparr>,
      \<lparr>task_repo = sample_repo ''b'', task_languages = Inr [(''Go'', 10), (''Shell'', 30)],
       task_readme = ([], Some ''404 Not Found'')\<rparr>]"

section \<open>Properties of the entity filter\<close>

lemma FilterRepos_loop_filter:
  "FilterRepos_loop (ToLower u) acc rs = acc @ filter (survives u) rs"
  by (induction rs arbitrary: acc) (auto simp: survives_def)

lemma FilterRepos_filter: "FilterRepos repos u = filter (survives u) repos"
  by (simp add: FilterRepos_def FilterRepos_loop_filter)

text \<open>
  C6. No repo in the output of \<^verbatim>\<open>FilterRepos\<close> is a fork, is archived, or has a name
  that equals the owner name up to letter case; the output is the subsequence of the
  input made of exactly the repos that survive, in input order.
\<close>

theorem FilterRepos_correct:
  "list_all (\<lambda>r. \<not> repo_Fork r) (FilterRepos repos username) \<and>
   list_all (\<lambda>r. \<not> repo_Archived r) (FilterRepos repos username) \<and>
   list_all (\<lambda>r. ToLower (repo_Name r) \<noteq> ToLower username) (FilterRepos repos username) \<and>
   subseq (FilterRepos repos username) repos \<and>
   FilterRepos repos username = filter (survives username) repos"
  by (simp add: FilterRepos_filter list_all_iff survives_def)

section \<open>Properties of the selection heuristic\<close>

lemma mset_sort_insert: "mset (sort_insert lt x ys) = add_mset x (mset ys)"
  by (induction ys) auto

lemma mset_sort_Slice: "mset (sort_Slice lt xs) = mset xs"
  by (induction xs) (auto simp: mset_sort_insert)

lemma length_sort_Slice: "length (sort_Slice lt xs) = length xs"
  using mset_sort_Slice [of lt xs] by (metis size_mset)

lemma set_sort_insert: "set (sort_insert lt x ys) = insert x (set ys)"
  by (induction ys) auto

lemma newest_first_insert:
  "newest_first ys \<Longrightarrow>
   newest_first (sort_insert (\<lambda>a b. After (proj_PushedAt a) (proj_PushedAt b)) x ys)"
  unfolding newest_first_def
  by (induction ys) (auto simp: After_def set_sort_insert)

lemma newest_first_sort_Slice:
  "newest_first (sort_Slice (\<lambda>a b. After (proj_PushedAt a) (proj_PushedAt b)) xs)"
proof (induction xs)
  case Nil
  show ?case by (simp add: newest_first_def)
next
  case (Cons x xs)
  then show ?case by (simp add: newest_first_insert)
qed

lemma length_mark_featured: "length (mark_featured k i ps) = length ps"
  by (induction ps arbitrary: i) auto

lemma nth_mark_featured:
  "j < length ps \<Longrightarrow> mark_featured k i ps ! j = (ps ! j)\<lparr>proj_Featured := (int (i + j) < k)\<rparr>"
proof (induction ps arbitrary: i j)
  case Nil
  then show ?case by simp
next
  case (Cons p ps)
  show ?case
  proof (cases j)
    case 0
    then show ?thesis by simp
  next
    case (Suc j')
    with Cons.prems have "j' < length ps" by simp
    from Cons.IH [OF this, of "Suc i"] Suc show ?thesis by (simp add: add.commute add.left_commute)
  qed
qed

lemma map_unflag_mark_featured: "map unflag (mark_featured k i ps) = map unflag ps"
  by (induction ps arbitrary: i) (auto simp: unflag_def)

lemma map_PushedAt_mark_featured:
  "map proj_PushedAt (mark_featured k i ps) = map proj_PushedAt ps"
  by (induction ps arbitrary: i) auto

lemma newest_first_map: "newest_first ps = sorted_wrt (\<lambda>a b. b \<le> a) (map proj_PushedAt ps)"
  by (simp add: newest_first_def sorted_wrt_map)

lemma newest_first_mark_featured:
  "newest_first (mark_featured k i ps) = newest_first ps"
  by (simp add: newest_first_map map_PushedAt_mark_featured)

lemma newest_first_take: "newest_first ps \<Longrightarrow> newest_first (take n ps)"
  by (simp add: newest_first_def sorted_wrt_take)

lemma filter_featured_mark:
  "length (filter proj_Featured (mark_featured k i ps)) = min (nat (k - int i)) (length ps)"
proof (induction ps arbitrary: i)
  case Nil
  then show ?case by simp
next
  case (Cons p ps)
  have "nat (k - int (Suc i)) = nat (k - int i) - 1" by simp
  with Cons show ?case by (auto simp: min_def)
qed

lemma ApplyFeatured_Inr:
  "0 \<le> N \<Longrightarrow>
   ApplyFeatured ps K N =
     Inr (mark_featured K 0
       (take (nat N) (sort_Slice (\<lambda>a b. After (proj_PushedAt a) (proj_PushedAt b)) ps)))"
  by (auto simp: ApplyFeatured_def Let_def length_sort_Slice)

lemma ApplyFeatured_Inl: "N < 0 \<Longrightarrow> ApplyFeatured ps K N = Inl SliceBoundsOutOfRange"
  by (auto simp: ApplyFeatured_def Let_def)

text \<open>
  C2. For \<open>0 \<le> K \<le> N\<close>, \<^verbatim>\<open>ApplyFeatured\<close> returns (it does not panic) a list of
  length \<open>min N\<^sub>r\<^sub>a\<^sub>w N\<close>, sorted descending by \<^verbatim>\<open>PushedAt\<close>, in which exactly
  \<open>min K (length out)\<close> entries are featured: the entries at the indices below \<open>K\<close>.
\<close>

theorem ApplyFeatured_selection:
  assumes "0 \<le> K" and "K \<le> N"
  shows "\<exists>out. ApplyFeatured ps K N = Inr out \<and>
           length out = min (length ps) (nat N) \<and>
           newest_first out \<and>
           length (filter proj_Featured out) = min (nat K) (length out) \<and>
           (\<forall>i<length out. proj_Featured (out ! i) = (i < nat K))"
proof -
  let ?ranked = "sort_Slice (\<lambda>a b. After (proj_PushedAt a) (proj_PushedAt b)) ps"
  let ?out = "mark_featured K 0 (take (nat N) ?ranked)"
  from assms have N: "0 \<le> N" by simp
  have run: "ApplyFeatured ps K N = Inr ?out"
    using N by (rule ApplyFeatured_Inr)
  have len: "length ?out = min (length ps) (nat N)"
    by (simp add: length_mark_featured length_sort_Slice min.commute)
  have srt: "newest_first ?out"
    by (simp add: newest_first_mark_featured newest_first_take newest_first_sort_Slice)
  have cnt: "length (filter proj_Featured ?out) = min (nat K) (length ?out)"
    by (simp add: filter_featured_mark length_mark_featured)
  have idx: "\<forall>i<length ?out. proj_Featured (?out ! i) = (i < nat K)"
  proof (intro allI impI)
    fix i
    assume "i < length ?out"
    then have "i < length (take (nat N) ?ranked)"
      by (simp add: length_mark_featured)
    from nth_mark_featured [OF this, of K 0] assms(1)
    show "proj_Featured (?out ! i) = (i < nat K)" by auto
  qed
  from run len srt cnt idx show ?thesis by blast
qed

theorem ApplyFeatured_selection_witness:
  "(0::int) \<le> 1 \<and> (1::int) \<le> 2 \<and>
   (\<exists>out. ApplyFeatured [sample_project ''a'' 10 True, sample_project ''b'' 30 False,
                           sample_project ''c'' 20 True] 1 2 = Inr out \<and>
      length out = 2 \<and> newest_first out \<and>
      length (filter proj_Featured out) = 1 \<and>
      out = [sample_project ''b'' 30 True, sample_project ''c'' 20 False])"
proof -
  have run: "ApplyFeatured [sample_project ''a'' 10 True, sample_project ''b'' 30 False,
                 sample_project ''c'' 20 True] 1 2
             = Inr [sample_project ''b'' 30 True, sample_project ''c'' 20 False]"
    by (simp add: ApplyFeatured_def sample_project_def After_def)
  from ApplyFeatured_selection [of 1 2 "[sample_project ''a'' 10 True,
      sample_project ''b'' 30 False, sample_project ''c'' 20 True]"] run
  show ?thesis by auto
qed

text \<open>
  C9. Every entry of the list \<^verbatim>\<open>ApplyFeatured\<close> returns is an entry of the input with
  at most its \<^verbatim>\<open>Featured\<close> field changed, and the output is, up to that flag, a prefix
  of a permutation of the input.
\<close>

theorem ApplyFeatured_frame:
  assumes "ApplyFeatured ps K N = Inr out"
  shows "(\<forall>q\<in>set out. \<exists>p\<in>set ps. q = p\<lparr>proj_Featured := proj_Featured q\<rparr>) \<and>
         (\<exists>ys. mset ys = mset ps \<and> prefix (map unflag out) (map unflag ys))"
proof -
  let ?ranked = "sort_Slice (\<lambda>a b. After (proj_PushedAt a) (proj_PushedAt b)) ps"
  have N: "0 \<le> N"
  proof (rule ccontr)
    assume "\<not> 0 \<le> N"
    then have "ApplyFeatured ps K N = Inl SliceBoundsOutOfRange"
      by (simp add: ApplyFeatured_Inl)
    with assms show False by simp
  qed
  from ApplyFeatured_Inr [OF N, of ps K] assms
  have out: "out = mark_featured K 0 (take (nat N) ?ranked)" by simp
  have un: "map unflag out = take (nat N) (map unflag ?ranked)"
    by (simp add: out map_unflag_mark_featured take_map)
  have pre: "prefix (map unflag out) (map unflag ?ranked)"
    unfolding un by (rule take_is_prefix)
  have entries: "\<forall>q\<in>set out. \<exists>p\<in>set ps. q = p\<lparr>proj_Featured := proj_Featured q\<rparr>"
  proof
    fix q
    assume "q \<in> set out"
    then obtain i where i: "i < length out" and q: "q = out ! i"
      by (auto simp: in_set_conv_nth)
    let ?cut = "take (nat N) ?ranked"
    from i out have i': "i < length ?cut" by (simp add: length_mark_featured)
    from nth_mark_featured [OF i', of K 0] q out
    have qeq: "q = (?cut ! i)\<lparr>proj_Featured := (int i < K)\<rparr>" by simp
    have "?cut ! i \<in> set ?cut" using i' by (rule nth_mem)
    then have "?cut ! i \<in> set ?ranked" by (rule in_set_takeD)
    then have mem: "?cut ! i \<in> set ps"
      using mset_sort_Slice [of "\<lambda>a b. After (proj_PushedAt a) (proj_PushedAt b)" ps]
      by (metis set_mset_mset)
    from qeq have "q = (?cut ! i)\<lparr>proj_Featured := proj_Featured q\<rparr>" by simp
    with mem show "\<exists>p\<in>set ps. q = p\<lparr>proj_Featured := proj_Featured q\<rparr>" by blast
  qed
  from entries pre mset_sort_Slice show ?thesis by blast
qed

theorem ApplyFeatured_frame_witness:
  "ApplyFeatured [sample_project ''a'' 10 True, sample_project ''b'' 30 False,
                  sample_project ''c'' 20 True] 1 2
     = Inr [sample_project ''b'' 30 True, sample_project ''c'' 20 False] \<and>
   (\<exists>ys. mset ys = mset [sample_project ''a'' 10 True, sample_project ''b'' 30 False,
                          sample_project ''c'' 20 True] \<and>
      prefix (map unflag [sample_project ''b'' 30 True, sample_project ''c'' 20 False])
             (map unflag ys))"
proof -
  have run: "ApplyFeatured [sample_project ''a'' 10 True, sample_project ''b'' 30 False,
                 sample_project ''c'' 20 True] 1 2
             = Inr [sample_project ''b'' 30 True, sample_project ''c'' 20 False]"
    by (simp add: ApplyFeatured_def sample_project_def After_def)
  from ApplyFeatured_frame [OF run] run show ?thesis by blast
qed

section \<open>Properties of the audit log recorder\<close>

lemma split_entries_filter:
  "split_entries es own other = (own @ own_entries es, other @ others_entries es)"
  by (induction es arbitrary: own other) (auto simp: own_entries_def others_entries_def)

lemma allLogEntries_eq:
  "allLogEntries es e =
     others_entries es @ drop (length (own_entries es) - 2) (own_entries es) @ [e]"
  by (simp add: allLogEntries_def split_entries_filter Let_def)

lemma drop_three_of_five:
  assumes len: "length xs = 5"
  shows "drop 3 xs = [xs ! 3, xs ! 4]"
proof -
  have a: "xs ! 3 # drop (Suc 3) xs = drop 3 xs"
    by (rule Cons_nth_drop_Suc) (simp add: len)
  have b: "xs ! 4 # drop (Suc 4) xs = drop 4 xs"
    by (rule Cons_nth_drop_Suc) (simp add: len)
  have c: "drop 5 xs = []" using len by simp
  from a [symmetric] b [symmetric] c show ?thesis by simp
qed


text \<open>
  C8. The list \<^verbatim>\<open>recordBuildLog\<close> writes is the other services' entries, unchanged and in
  their order, then at most the last two of this service's earlier entries, then the
  new entry. With five own entries and three of others it has six entries: the three
  others, the own entries at positions 3 and 4 (the two most recent), the new one.
\<close>

theorem audit_cap:
  "stored (recordBuildLog ga now force stats (Inr r)) =
     Some (others_entries (blr_Entries r) @
           drop (length (own_entries (blr_Entries r)) - 2) (own_entries (blr_Entries r)) @
           [new_logEntry ga now force stats]) \<and>
   length (drop (length (own_entries (blr_Entries r)) - 2) (own_entries (blr_Entries r))) \<le> 2 \<and>
   (length (own_entries (blr_Entries r)) = 5 \<and> length (others_entries (blr_Entries r)) = 3 \<longrightarrow>
      stored (recordBuildLog ga now force stats (Inr r)) =
        Some (others_entries (blr_Entries r) @
              [own_entries (blr_Entries r) ! 3, own_entries (blr_Entries r) ! 4,
               new_logEntry ga now force stats]) \<and>
      length (others_entries (blr_Entries r) @
              [own_entries (blr_Entries r) ! 3, own_entries (blr_Entries r) ! 4,
               new_logEntry ga now force stats]) = 6)"
proof -
  let ?e = "new_logEntry ga now force stats"
  let ?own = "own_entries (blr_Entries r)"
  let ?oth = "others_entries (blr_Entries r)"
  have st: "stored (recordBuildLog ga now force stats (Inr r)) =
              Some (allLogEntries (blr_Entries r) ?e)"
    by (simp add: recordBuildLog_def Let_def)
  have gen: "allLogEntries (blr_Entries r) ?e = ?oth @ drop (length ?own - 2) ?own @ [?e]"
    by (rule allLogEntries_eq)
  have cap: "length (drop (length ?own - 2) ?own) \<le> 2" by simp
  have five: "drop (length ?own - 2) ?own = [?own ! 3, ?own ! 4]" if "length ?own = 5"
    using that by (simp add: drop_three_of_five)
  from st gen cap five show ?thesis by simp
qed

theorem audit_cap_witness:
  "length (own_entries sample_log) = 5 \<and> length (others_entries sample_log) = 3 \<and>
   stored (recordBuildLog ''true'' ''t9'' False
             \<lparr>stats_NewAdded = 1, stats_Total = 15, stats_Status = ''success''\<rparr>
             (Inr \<lparr>blr_Entries = sample_log, blr_EntryID = ''e1'', blr_Version = 7\<rparr>)) =
     Some [sample_entry ''blog-sync'' ''t2'', sample_entry ''translator'' ''t5'',
           sample_entry ''blog-sync'' ''t7'', sample_entry ''github-cms-sync'' ''t6'',
           sample_entry ''github-cms-sync'' ''t8'',
           new_logEntry ''true'' ''t9'' False
             \<lparr>stats_NewAdded = 1, stats_Total = 15, stats_Status = ''success''\<rparr>]"
proof -
  have own: "own_entries sample_log =
      [sample_entry ''github-cms-sync'' ''t1'', sample_entry ''github-cms-sync'' ''t3'',
       sample_entry ''github-cms-sync'' ''t4'', sample_entry ''github-cms-sync'' ''t6'',
       sample_entry ''github-cms-sync'' ''t8'']"
    by (simp add: own_entries_def sample_log_def sample_entry_def serviceName_def)
  have oth: "others_entries sample_log =
      [sample_entry ''blog-sync'' ''t2'', sample_entry ''translator'' ''t5'',
       sample_entry ''blog-sync'' ''t7'']"
    by (simp add: others_entries_def sample_log_def sample_entry_def serviceName_def)
  from audit_cap [of "''true''" "''t9''" False
      "\<lparr>stats_NewAdded = 1, stats_Total = 15, stats_Status = ''success''\<rparr>"
      "\<lparr>blr_Entries = sample_log, blr_EntryID = ''e1'', blr_Version = 7\<rparr>"]
  show ?thesis by (simp add: own oth)
qed

section \<open>Properties of the batch enricher\<close>

lemma match_loop_zip:
  "match_loop d i ps res = res @ map (\<lambda>(raw, x). enriched_project raw x) (zip ps (drop i d))"
proof (induction ps arbitrary: i res)
  case Nil
  show ?case by simp
next
  case (Cons raw rest)
  show ?case
  proof (cases "length d \<le> i")
    case True
    then show ?thesis by (simp add: Cons.IH)
  next
    case False
    then have "drop i d = d ! i # drop (Suc i) d"
      by (simp add: Cons_nth_drop_Suc)
    with False show ?thesis by (simp add: Cons.IH)
  qed
qed

lemma length_match_loop:
  "length (match_loop d 0 ps []) = min (length ps) (length d)"
  by (simp add: match_loop_zip)

lemma nth_match_loop:
  "i < length ps \<Longrightarrow> i < length d \<Longrightarrow>
   match_loop d 0 ps [] ! i = enriched_project (ps ! i) (d ! i)"
  by (simp add: match_loop_zip)

lemma retry_loop_exhausted:
  "maxRetries < attempt \<Longrightarrow>
   retry_loop gen cancelled ctx_err attempt response lastErr calls = Finished response lastErr calls"
  by simp

lemma retry_loop_cancel:
  "attempt \<le> maxRetries \<Longrightarrow> 0 < attempt \<Longrightarrow> cancelled attempt \<Longrightarrow>
   retry_loop gen cancelled ctx_err attempt response lastErr calls = Returned ctx_err calls"
  by simp

lemma retry_loop_ok:
  "attempt \<le> maxRetries \<Longrightarrow> attempt = 0 \<or> \<not> cancelled attempt \<Longrightarrow>
   gen attempt = (r, None) \<Longrightarrow>
   retry_loop gen cancelled ctx_err attempt response lastErr calls = Finished r lastErr (Suc calls)"
  by auto

lemma retry_loop_fatal:
  "attempt \<le> maxRetries \<Longrightarrow> attempt = 0 \<or> \<not> cancelled attempt \<Longrightarrow>
   gen attempt = (r, Some err) \<Longrightarrow> \<not> rate_limited err \<Longrightarrow>
   retry_loop gen cancelled ctx_err attempt response lastErr calls
     = Returned (''gemini: '' @ err) (Suc calls)"
  by (auto simp: rate_limited_def)

lemma retry_loop_retry:
  "attempt \<le> maxRetries \<Longrightarrow> attempt = 0 \<or> \<not> cancelled attempt \<Longrightarrow>
   gen attempt = (r, Some err) \<Longrightarrow> rate_limited err \<Longrightarrow>
   retry_loop gen cancelled ctx_err attempt response lastErr calls
     = retry_loop gen cancelled ctx_err (Suc attempt) r (Some err) (Suc calls)"
  by (auto simp: rate_limited_def)

declare retry_loop.simps [simp del]

lemma retry_loop_Finished:
  "retry_loop gen cancelled ctx_err attempt response lastErr calls = Finished r le c \<Longrightarrow>
   (r = response \<and> maxRetries < attempt) \<or> (\<exists>k err. gen k = (r, err))"
proof (induction gen cancelled ctx_err attempt response lastErr calls rule: retry_loop.induct)
  case (1 gen cancelled ctx_err attempt response lastErr calls)
  note simps = retry_loop.simps [of gen cancelled ctx_err attempt response lastErr calls]
  show ?case
  proof (cases "attempt \<le> maxRetries")
    case False
    with "1.prems" show ?thesis by (simp add: retry_loop_exhausted)
  next
    case True
    note att = this
    show ?thesis
    proof (cases "0 < attempt \<and> cancelled attempt")
      case True
      with att "1.prems" show ?thesis by (simp add: retry_loop_cancel)
    next
      case False
      then have nc: "attempt = 0 \<or> \<not> cancelled attempt" by simp
      obtain r0 e0 where g: "gen attempt = (r0, e0)" by (cases "gen attempt")
      show ?thesis
      proof (cases e0)
        case None
        from retry_loop_ok [where gen = gen and cancelled = cancelled and attempt = attempt,
            OF att nc g [unfolded None]] "1.prems" have "r = r0" by simp
        with g show ?thesis by blast
      next
        case (Some err)
        note g' = g [unfolded Some]
        show ?thesis
        proof (cases "rate_limited err")
          case False
          from retry_loop_fatal [where gen = gen and cancelled = cancelled and attempt = attempt,
              OF att nc g' False] "1.prems" show ?thesis by simp
        next
          case True
          from retry_loop_retry [where gen = gen and cancelled = cancelled and attempt = attempt,
              OF att nc g' True] "1.prems"
          have rec: "retry_loop gen cancelled ctx_err (Suc attempt) r0 (Some err) (Suc calls)
                       = Finished r le c" by simp
          from True have rl: "\<not> (\<not> Contains err ''429'' \<and> \<not> Contains err ''RESOURCE_EXHAUSTED'')"
            by (simp add: rate_limited_def)
          from "1.IH" [OF att False g' [symmetric] refl rl rec] g'
          show ?thesis by auto
        qed
      qed
    qed
  qed
qed



lemma match_loop_matched: "matched_by_position projects dataList (match_loop dataList 0 projects [])"
  unfolding matched_by_position_def
  by (simp add: length_match_loop nth_match_loop enriched_project_def)



lemma retry_loop_success_at:
  "n \<le> maxRetries \<Longrightarrow> a \<le> n \<Longrightarrow>
   (\<forall>k. a \<le> k \<and> k < n \<longrightarrow> (\<exists>r e. gen k = (r, Some e) \<and> rate_limited e)) \<Longrightarrow>
   (\<forall>k. a \<le> k \<and> k \<le> n \<and> 0 < k \<longrightarrow> \<not> cancelled k) \<Longrightarrow>
   gen n = (r, None) \<Longrightarrow>
   \<exists>le. retry_loop gen cancelled ctx_err a response lastErr calls
          = Finished r le (Suc (calls + (n - a))) \<and> (a = n \<longrightarrow> le = lastErr)"
proof (induction "n - a" arbitrary: a response lastErr calls)
  case 0
  then have an: "a = n" by simp
  from 0 have nc: "a = 0 \<or> \<not> cancelled a" by auto
  from retry_loop_ok [where gen = gen and cancelled = cancelled and attempt = a,
      OF _ nc, of r ctx_err response lastErr calls] 0 an
  show ?case by simp
next
  case (Suc d)
  then have lt: "a < n" by simp
  with Suc.prems obtain r0 e0 where g: "gen a = (r0, Some e0)" and rl: "rate_limited e0"
    by (metis order_refl)
  from Suc.prems have nc: "a = 0 \<or> \<not> cancelled a" by auto
  from lt Suc.prems have am: "a \<le> maxRetries" by simp
  have step: "retry_loop gen cancelled ctx_err a response lastErr calls
        = retry_loop gen cancelled ctx_err (Suc a) r0 (Some e0) (Suc calls)"
    by (rule retry_loop_retry [where gen = gen and cancelled = cancelled and attempt = a,
          OF am nc g rl])
  have d: "d = n - Suc a" using Suc.hyps(2) by simp
  have "\<exists>le. retry_loop gen cancelled ctx_err (Suc a) r0 (Some e0) (Suc calls)
          = Finished r le (Suc (Suc calls + (n - Suc a))) \<and> (Suc a = n \<longrightarrow> le = Some e0)"
    by (rule Suc.hyps(1) [OF d Suc.prems(1)]) (use lt Suc.prems in auto)
  with step lt show ?case by auto
qed

lemma Enrich_parsed:
  assumes loop: "retry_loop gen cancelled ctx_err 0 [] None 0 = Finished response lastErr calls"
    and resp: "response = [] \<longrightarrow> lastErr = None"
    and parse: "unmarshal (stripMarkdownFences response) = Inr dataList"
  shows "Enrich gen cancelled ctx_err unmarshal projects
           = (calls, Inr (match_loop dataList 0 projects []))"
proof -
  from resp have "(if response = [] then lastErr else None) = None" by simp
  with loop parse show ?thesis by (simp add: Enrich_def)
qed

text \<open>
  C1. Every response that is parsed is matched by position. When the generator answers
  at attempt \<open>n\<close> (after \<open>n\<close> rate-limited failures, no cancellation) with a text that
  parses into an array, and more generally whenever the retry loop ends with a response
  that passes the check after it and parses, \<^verbatim>\<open>Enrich\<close> returns projects matched by
  position with that array: for \<open>n\<close> inputs and an array of length \<open>m\<close> the output has
  length \<open>min n m\<close> (so \<open>m\<close> when \<open>m \<le> n\<close>, and \<open>n\<close> when \<open>m \<ge> n\<close>, the entries of
  the array from index \<open>n\<close> on being ignored), and entry \<open>i\<close> has the slug, the GitHub
  URL and the pushed-at instant of input \<open>i\<close>, the generated fields of array entry
  \<open>i\<close>, and the featured flag false. Conversely, every list of projects that
  \<^verbatim>\<open>Enrich\<close> returns is matched in this way with the array parsed from a response of
  the generator.
\<close>

theorem Enrich_positional:
  "(\<forall>n response dataList.
      n \<le> maxRetries \<and>
      (\<forall>k<n. \<exists>r e. gen k = (r, Some e) \<and> rate_limited e) \<and>
      (\<forall>k. 0 < k \<and> k \<le> n \<longrightarrow> \<not> cancelled k) \<and>
      gen n = (response, None) \<and> (response = [] \<longrightarrow> n = 0) \<and>
      unmarshal (stripMarkdownFences response) = Inr dataList \<longrightarrow>
      (\<exists>out. Enrich gen cancelled ctx_err unmarshal projects = (Suc n, Inr out) \<and>
             matched_by_position projects dataList out)) \<and>
   (\<forall>response lastErr calls dataList.
      retry_loop gen cancelled ctx_err 0 [] None 0 = Finished response lastErr calls \<and>
      (response = [] \<longrightarrow> lastErr = None) \<and>
      unmarshal (stripMarkdownFences response) = Inr dataList \<longrightarrow>
      (\<exists>out. Enrich gen cancelled ctx_err unmarshal projects = (calls, Inr out) \<and>
             matched_by_position projects dataList out)) \<and>
   (\<forall>calls out.
      Enrich gen cancelled ctx_err unmarshal projects = (calls, Inr out) \<longrightarrow>
      (\<exists>k response err dataList.
         gen k = (response, err) \<and>
         unmarshal (stripMarkdownFences response) = Inr dataList \<and>
         matched_by_position projects dataList out))"
proof (intro conjI allI impI)
  fix n response dataList
  assume A: "n \<le> maxRetries \<and>
      (\<forall>k<n. \<exists>r e. gen k = (r, Some e) \<and> rate_limited e) \<and>
      (\<forall>k. 0 < k \<and> k \<le> n \<longrightarrow> \<not> cancelled k) \<and>
      gen n = (response, None) \<and> (response = [] \<longrightarrow> n = 0) \<and>
      unmarshal (stripMarkdownFences response) = Inr dataList"
  then have "\<exists>le. retry_loop gen cancelled ctx_err 0 [] None 0
                 = Finished response le (Suc (0 + (n - 0))) \<and> (0 = n \<longrightarrow> le = None)"
    by (intro retry_loop_success_at) auto
  then obtain le where
    loop: "retry_loop gen cancelled ctx_err 0 [] None 0 = Finished response le (Suc n)" and
    le: "n = 0 \<longrightarrow> le = None"
    by auto
  from A le have resp: "response = [] \<longrightarrow> le = None" by blast
  from A have parse: "unmarshal (stripMarkdownFences response) = Inr dataList" by simp
  from Enrich_parsed [where unmarshal = unmarshal and projects = projects, OF loop resp parse]
    match_loop_matched [of projects dataList]
  show "\<exists>out. Enrich gen cancelled ctx_err unmarshal projects = (Suc n, Inr out) \<and>
             matched_by_position projects dataList out"
    by blast
next
  fix response lastErr calls dataList
  assume A: "retry_loop gen cancelled ctx_err 0 [] None 0 = Finished response lastErr calls \<and>
      (response = [] \<longrightarrow> lastErr = None) \<and>
      unmarshal (stripMarkdownFences response) = Inr dataList"
  then have loop: "retry_loop gen cancelled ctx_err 0 [] None 0 = Finished response lastErr calls"
    and resp: "response = [] \<longrightarrow> lastErr = None"
    and parse: "unmarshal (stripMarkdownFences response) = Inr dataList"
    by simp_all
  from Enrich_parsed [where unmarshal = unmarshal and projects = projects, OF loop resp parse]
    match_loop_matched [of projects dataList]
  show "\<exists>out. Enrich gen cancelled ctx_err unmarshal projects = (calls, Inr out) \<and>
             matched_by_position projects dataList out"
    by blast
next
  fix calls out
  assume run: "Enrich gen cancelled ctx_err unmarshal projects = (calls, Inr out)"
  then obtain response lastErr where
    loop: "retry_loop gen cancelled ctx_err 0 [] None 0 = Finished response lastErr calls"
    by (auto simp: Enrich_def split: loop_exit.splits option.splits sum.splits)
  from run loop obtain dataList where
    parse: "unmarshal (stripMarkdownFences response) = Inr dataList" and
    out: "out = match_loop dataList 0 projects []"
    by (auto simp: Enrich_def split: option.splits sum.splits)
  from retry_loop_Finished [OF loop] obtain k err where g: "gen k = (response, err)"
    by (auto simp: maxRetries_def)
  from g parse out match_loop_matched [of projects dataList]
  show "\<exists>k response err dataList.
         gen k = (response, err) \<and>
         unmarshal (stripMarkdownFences response) = Inr dataList \<and>
         matched_by_position projects dataList out"
    by blast
qed

lemma stripMarkdownFences_sample: "stripMarkdownFences sample_response = sample_json"
  by (simp add: stripMarkdownFences_def sample_response_def sample_json_def fence_def
      TrimSpace_def TrimPrefix_def TrimSuffix_def HasSuffix_def trim_front.simps
      lead_width_def space_runes_def Let_def)

theorem Enrich_positional_witness:
  "sample_unmarshal (stripMarkdownFences sample_response) = Inr [sample_data ''A''] \<and>
   Enrich (\<lambda>k. (sample_response, None)) (\<lambda>k. False) ''context canceled'' sample_unmarshal
          [sample_raw ''a'' 5, sample_raw ''b'' 7]
     = (1, Inr [\<lparr>proj_Name = ''A'', proj_Slug = ''a'', proj_ShortDescription = [],
                 proj_Description = [], proj_LongDescription = [],
                 proj_GithubURL = ''https://github.com/o/a'', proj_Technologies = [],
                 proj_Highlights = [], proj_Featured = False, proj_Gradient = [],
                 proj_Category = [], proj_PushedAt = 5\<rparr>])"
proof -
  let ?gen = "\<lambda>k::nat. (sample_response, None :: string option)"
  let ?ps = "[sample_raw ''a'' 5, sample_raw ''b'' 7]"
  have parse: "sample_unmarshal (stripMarkdownFences sample_response) = Inr [sample_data ''A'']"
    by (simp add: stripMarkdownFences_sample sample_unmarshal_def)
  note fwd = Enrich_positional [of ?gen "\<lambda>k. False" sample_unmarshal "''context canceled''" ?ps,
      THEN conjunct1, rule_format, of 0 sample_response "[sample_data ''A'']"]
  from fwd parse obtain out where
    run: "Enrich ?gen (\<lambda>k. False) ''context canceled'' sample_unmarshal ?ps = (Suc 0, Inr out)" and
    m: "matched_by_position ?ps [sample_data ''A''] out"
    by auto
  from m have len: "length out = 1" and
    hd: "out ! 0 = \<lparr>proj_Name = ''A'', proj_Slug = ''a'', proj_ShortDescription = [],
                 proj_Description = [], proj_LongDescription = [],
                 proj_GithubURL = ''https://github.com/o/a'', proj_Technologies = [],
                 proj_Highlights = [], proj_Featured = False, proj_Gradient = [],
                 proj_Category = [], proj_PushedAt = 5\<rparr>"
    by (simp_all add: matched_by_position_def sample_data_def sample_raw_def)
  from len hd have "out = [\<lparr>proj_Name = ''A'', proj_Slug = ''a'', proj_ShortDescription = [],
                 proj_Description = [], proj_LongDescription = [],
                 proj_GithubURL = ''https://github.com/o/a'', proj_Technologies = [],
                 proj_Highlights = [], proj_Featured = False, proj_Gradient = [],
                 proj_Category = [], proj_PushedAt = 5\<rparr>]"
    by (cases out) auto
  with run parse show ?thesis by simp
qed





section \<open>Properties of the configuration loader\<close>

lemma envInt_default: "Atoi (env key) = None \<Longrightarrow> envInt env key d = d"
  by (simp add: envInt_def Let_def)

text \<open>
  C10. With the four required variables set, \<^verbatim>\<open>Load\<close> succeeds whatever the optional
  variables hold: a \<^verbatim>\<open>MAX_FEATURED\<close> or \<^verbatim>\<open>MAX_PROJECTS\<close> that does not parse as an
  integer gives the default 5 or 15, and a \<^verbatim>\<open>FORCE_UPDATE\<close> that does not parse as a
  boolean gives false.
\<close>

theorem Load_invalid_optionals:
  assumes "env ''CONTENTFUL_SPACE_ID'' \<noteq> []" and "env ''CONTENTFUL_CMA_TOKEN'' \<noteq> []"
    and "env ''CONTENTFUL_ENTRY_ID'' \<noteq> []" and "env ''GEMINI_API_KEY'' \<noteq> []"
  shows "\<exists>cfg. Load env = Inr cfg \<and>
           (Atoi (env ''MAX_FEATURED'') = None \<longrightarrow> cfg_MaxFeatured cfg = 5) \<and>
           (Atoi (env ''MAX_PROJECTS'') = None \<longrightarrow> cfg_MaxProjects cfg = 15) \<and>
           (snd (ParseBool (env ''FORCE_UPDATE'')) \<noteq> None \<longrightarrow> cfg_ForceUpdate cfg = False)"
proof -
  have pb: "snd (ParseBool s) \<noteq> None \<Longrightarrow> fst (ParseBool s) = False" for s
    by (simp add: ParseBool_def split: if_splits)
  from assms show ?thesis
    by (simp add: Load_def Let_def envInt_default pb)
qed

theorem Load_invalid_optionals_witness:
  "sample_env ''CONTENTFUL_SPACE_ID'' \<noteq> [] \<and> sample_env ''CONTENTFUL_CMA_TOKEN'' \<noteq> [] \<and>
   sample_env ''CONTENTFUL_ENTRY_ID'' \<noteq> [] \<and> sample_env ''GEMINI_API_KEY'' \<noteq> [] \<and>
   sample_env ''MAX_FEATURED'' = ''five'' \<and> Atoi ''five'' = None \<and>
   sample_env ''MAX_PROJECTS'' = ''1e3'' \<and> Atoi ''1e3'' = None \<and>
   sample_env ''FORCE_UPDATE'' = ''yes'' \<and> snd (ParseBool ''yes'') \<noteq> None \<and>
   (\<exists>cfg. Load sample_env = Inr cfg \<and> cfg_MaxFeatured cfg = 5 \<and> cfg_MaxProjects cfg = 15 \<and>
      cfg_ForceUpdate cfg = False)"
proof -
  have e: "sample_env ''CONTENTFUL_SPACE_ID'' = ''space''"
      "sample_env ''CONTENTFUL_CMA_TOKEN'' = ''token''"
      "sample_env ''CONTENTFUL_ENTRY_ID'' = ''projects''"
      "sample_env ''GEMINI_API_KEY'' = ''key''"
      "sample_env ''MAX_FEATURED'' = ''five''"
      "sample_env ''MAX_PROJECTS'' = ''1e3''"
      "sample_env ''FORCE_UPDATE'' = ''yes''"
    by (simp_all add: sample_env_def)
  have a: "Atoi ''five'' = None" "Atoi ''1e3'' = None"
    by (simp_all add: Atoi_def is_digit_def Let_def)
  have b: "snd (ParseBool ''yes'') \<noteq> None"
    by (simp add: ParseBool_def)
  from Load_invalid_optionals [of sample_env] e a b
  show ?thesis by simp
qed

section \<open>Properties of the remote store client\<close>

lemma GetProjects_absent_container:
  "entry_Fields entry ''content'' = None \<Longrightarrow>
   GetProjects elem (Inr entry) bySectionID =
     (Some \<lparr>res_Projects = [], res_EntryID = sys_ID entry, res_Version = sys_Version entry,
            res_RawFields = entry_Fields entry\<rparr>, None)"
  by (simp add: GetProjects_def)

lemma GetProjects_not_locale_wrapped:
  "entry_Fields entry ''content'' = Some v \<Longrightarrow> (\<forall>localeMap. v \<noteq> JObject localeMap) \<Longrightarrow>
   GetProjects elem (Inr entry) bySectionID =
     (Some \<lparr>res_Projects = [], res_EntryID = sys_ID entry, res_Version = sys_Version entry,
            res_RawFields = entry_Fields entry\<rparr>,
      Some ''content field is not locale-wrapped'')"
  by (cases v) (simp_all add: GetProjects_def)

lemma GetProjects_unmarshal_error:
  "entry_Fields entry ''content'' = Some (JObject localeMap) \<Longrightarrow>
   unmarshal_projects elem (rawContent_of localeMap) = Inl err \<Longrightarrow>
   GetProjects elem (Inr entry) bySectionID = (None, Some (''unmarshal projects: '' @ err))"
  by (simp add: GetProjects_def)

text \<open>
  C4. The container absent, \<^verbatim>\<open>GetProjects\<close> returns an empty collection with the
  identity and version of the entry and no error (\<open>GetProjects_absent_container\<close>); the
  container not a locale map, it returns the identity and version together with an
  error (\<open>GetProjects_not_locale_wrapped\<close>). For a locale map whose value does not
  decode into a list of projects, here the string \<^verbatim>\<open>"oops"\<close> under \<^verbatim>\<open>en-US\<close>, it returns
  the error and no result, so neither identity nor version.
\<close>

theorem GetProjects_undecodable_drops_identity:
  "entry_Fields sample_bad_entry ''content'' = Some (JObject [(''en-US'', JString ''oops'')]) \<and>
   GetProjects elem (Inr sample_bad_entry) bySectionID =
     (None,
      Some (''unmarshal projects: json: cannot unmarshal string into Go value of type []contentful.Project''))"
proof -
  have c: "entry_Fields sample_bad_entry ''content''
             = Some (JObject [(''en-US'', JString ''oops'')])"
    by (simp add: sample_bad_entry_def)
  have u: "unmarshal_projects elem (rawContent_of [(''en-US'', JString ''oops'')])
             = Inl (cannot_unmarshal ''string'')"
    by (simp add: rawContent_of_def)
  from GetProjects_unmarshal_error [OF c u] c show ?thesis
    by (simp add: cannot_unmarshal_def)
qed

lemma HasPrefix_append: "HasPrefix (p @ s) p"
  by (induction p) auto

lemma Contains_HasPrefix: "HasPrefix s sub \<Longrightarrow> Contains s sub"
  by (cases s) auto

lemma Contains_append_left: "Contains s sub \<Longrightarrow> Contains (a @ s) sub"
  by (induction a) auto

lemma Contains_middle: "Contains (a @ b @ c) b"
  by (intro Contains_append_left Contains_HasPrefix HasPrefix_append)

lemma Contains_end: "Contains (a @ b) b"
  using Contains_middle [of a b "[]"] by simp

text \<open>
  C5. In the request \<^verbatim>\<open>UpdateProjects\<close> builds, every field key other than \<^verbatim>\<open>content\<close>
  maps to exactly the value read before, \<^verbatim>\<open>content\<close> maps to the new projects under
  the locale \<^verbatim>\<open>en-US\<close>, and the header \<^verbatim>\<open>X-Contentful-Version\<close> carries the version read
  before. When the response to that request has a status other than 200,
  \<^verbatim>\<open>UpdateProjects\<close> returns an error that contains the status code and, the body
  having been read, reads \<^verbatim>\<open>CMA update failed (status): body\<close>.
\<close>

theorem UpdateProjects_frame:
  "(\<forall>k. k \<noteq> ''content'' \<longrightarrow>
      req_fields (update_request base space token result projects) k
        = map_option Existing (res_RawFields result k)) \<and>
   req_fields (update_request base space token result projects) ''content''
     = Some (Localized [(''en-US'', projects)]) \<and>
   req_Header (update_request base space token result projects) ''X-Contentful-Version''
     = Some (fmt_d (res_Version result)) \<and>
   (\<forall>resp.
      new_request_error (req_URL (update_request base space token result projects)) = None \<and>
      do (update_request base space token result projects) = Inr resp \<and>
      resp_StatusCode resp \<noteq> 200 \<longrightarrow>
      (\<exists>err. UpdateProjects base space token new_request_error do decode_version result projects
               = Inl err \<and>
             Contains err (fmt_d (resp_StatusCode resp)) \<and>
             (\<forall>respBody. resp_Body resp = Inr respBody \<longrightarrow>
                err = ''CMA update failed ('' @ fmt_d (resp_StatusCode resp) @ ''): '' @ respBody \<and>
                Contains err respBody)))"
proof (intro conjI allI impI)
  fix k :: string
  assume "k \<noteq> ''content''"
  then show "req_fields (update_request base space token result projects) k
               = map_option Existing (res_RawFields result k)"
    by (simp add: update_request_def update_fields_def)
next
  show "req_fields (update_request base space token result projects) ''content''
          = Some (Localized [(''en-US'', projects)])"
    by (simp add: update_request_def update_fields_def)
next
  show "req_Header (update_request base space token result projects) ''X-Contentful-Version''
          = Some (fmt_d (res_Version result))"
    by (simp add: update_request_def)
next
  fix resp :: http_response
  let ?req = "update_request base space token result projects"
  let ?st = "fmt_d (resp_StatusCode resp)"
  assume A: "new_request_error (req_URL ?req) = None \<and> do ?req = Inr resp \<and>
             resp_StatusCode resp \<noteq> 200"
  show "\<exists>err. UpdateProjects base space token new_request_error do decode_version result projects
               = Inl err \<and>
             Contains err ?st \<and>
             (\<forall>respBody. resp_Body resp = Inr respBody \<longrightarrow>
                err = ''CMA update failed ('' @ ?st @ ''): '' @ respBody \<and>
                Contains err respBody)"
  proof (cases "resp_Body resp")
    case (Inl e)
    let ?err = "''CMA update failed ('' @ ?st @ ''): could not read body: '' @ e"
    from A Inl have "UpdateProjects base space token new_request_error do decode_version
                       result projects = Inl ?err"
      by (simp add: UpdateProjects_def Let_def)
    moreover have "Contains ?err ?st" by (rule Contains_middle)
    ultimately show ?thesis using Inl by auto
  next
    case (Inr b)
    let ?err = "''CMA update failed ('' @ ?st @ ''): '' @ b"
    from A Inr have "UpdateProjects base space token new_request_error do decode_version
                       result projects = Inl ?err"
      by (simp add: UpdateProjects_def Let_def)
    moreover have "Contains ?err ?st" by (rule Contains_middle)
    moreover have "Contains ?err b"
      using Contains_end [of "''CMA update failed ('' @ ?st @ ''): ''" b] by simp
    ultimately show ?thesis using Inr by auto
  qed
qed

theorem UpdateProjects_frame_witness:
  "req_fields (update_request ''https://api.contentful.com'' ''sp'' ''tok'' sample_result
                 [sample_project ''a'' 10 True]) ''title''
     = Some (Existing (JString ''Projects'')) \<and>
   req_fields (update_request ''https://api.contentful.com'' ''sp'' ''tok'' sample_result
                 [sample_project ''a'' 10 True]) ''content''
     = Some (Localized [(''en-US'', [sample_project ''a'' 10 True])]) \<and>
   req_Header (update_request ''https://api.contentful.com'' ''sp'' ''tok'' sample_result
                 [sample_project ''a'' 10 True]) ''X-Contentful-Version'' = Some ''12'' \<and>
   UpdateProjects ''https://api.contentful.com'' ''sp'' ''tok'' (\<lambda>u. None) sample_conflict
       (\<lambda>b. Inr 13) sample_result [sample_project ''a'' 10 True]
     = Inl ''CMA update failed (409): VersionMismatch''"
proof -
  let ?req = "update_request ''https://api.contentful.com'' ''sp'' ''tok'' sample_result
                 [sample_project ''a'' 10 True]"
  have v: "fmt_d (res_Version sample_result) = ''12''"
    by (simp add: sample_result_def fmt_d_def dec_nat.simps)
  have st: "fmt_d 409 = ''409''"
    by (simp add: fmt_d_def dec_nat.simps)
  have t: "res_RawFields sample_result ''title'' = Some (JString ''Projects'')"
    by (simp add: sample_result_def)
  have d: "sample_conflict ?req = Inr \<lparr>resp_StatusCode = 409, resp_Body = Inr ''VersionMismatch''\<rparr>"
    by (simp add: sample_conflict_def)
  note inst = UpdateProjects_frame [of "''https://api.contentful.com''" "''sp''" "''tok''"
      sample_result "[sample_project ''a'' 10 True]" "\<lambda>u. None" sample_conflict "\<lambda>b. Inr 13"]
  from inst [THEN conjunct1, rule_format, of "''title''"]
  have a: "req_fields ?req ''title'' = Some (Existing (JString ''Projects''))"
    by (simp add: t)
  note b = inst [THEN conjunct2, THEN conjunct1]
  from inst [THEN conjunct2, THEN conjunct2, THEN conjunct1]
  have c: "req_Header ?req ''X-Contentful-Version'' = Some ''12''"
    by (simp add: v)
  from inst [THEN conjunct2, THEN conjunct2, THEN conjunct2, rule_format,
      of "\<lparr>resp_StatusCode = 409, resp_Body = Inr ''VersionMismatch''\<rparr>"] d
  have "\<exists>err. UpdateProjects ''https://api.contentful.com'' ''sp'' ''tok'' (\<lambda>u. None)
                sample_conflict (\<lambda>b. Inr 13) sample_result [sample_project ''a'' 10 True]
               = Inl err \<and>
             err = ''CMA update failed ('' @ fmt_d 409 @ ''): '' @ ''VersionMismatch''"
    by auto
  then have e: "UpdateProjects ''https://api.contentful.com'' ''sp'' ''tok'' (\<lambda>u. None)
             sample_conflict (\<lambda>b. Inr 13) sample_result [sample_project ''a'' 10 True]
           = Inl ''CMA update failed (409): VersionMismatch''"
    by (simp add: st)
  from a b c e show ?thesis by simp
qed

section \<open>Properties of the detail collector\<close>

lemma mset_remove_nth:
  assumes "i < length xs"
  shows "add_mset (xs ! i) (mset (take i xs @ drop (Suc i) xs)) = mset xs"
proof -
  from assms have "xs = take i xs @ xs ! i # drop (Suc i) xs"
    by (rule id_take_nth_drop)
  then have "mset xs = mset (take i xs @ xs ! i # drop (Suc i) xs)" by simp
  then show ?thesis by simp
qed

lemma mset_run_workers:
  "mset (run_workers sched pending acc) = mset acc + mset (map worker pending)"
proof (induction sched pending acc rule: run_workers.induct)
  case (1 sched rawProjects)
  show ?case by simp
next
  case (2 t ts rawProjects)
  then show ?case by simp
next
  case (3 c cs t ts rawProjects)
  let ?xs = "t # ts"
  let ?i = "c mod length ?xs"
  have i: "?i < length ?xs" by simp
  have "mset (run_workers (c # cs) ?xs rawProjects)
          = mset (rawProjects @ [worker (?xs ! ?i)])
            + mset (map worker (take ?i ?xs @ drop (Suc ?i) ?xs))"
    using "3.IH" [OF refl] by (simp add: Let_def)
  also have "\<dots> = mset rawProjects
          + image_mset worker (add_mset (?xs ! ?i) (mset (take ?i ?xs @ drop (Suc ?i) ?xs)))"
    by simp
  also have "\<dots> = mset rawProjects + image_mset worker (mset ?xs)"
    by (simp only: mset_remove_nth [OF i])
  finally show ?case by simp
qed

text \<open>
  Whatever the fetches return and in whatever order the goroutines finish,
  \<^verbatim>\<open>fetchDetails\<close> returns no error and exactly one \<^verbatim>\<open>RawProject\<close> per input repo: the
  result is a permutation of the projects of the inputs, so of the same length. A
  failed language fetch gives the project an empty language list; the readme of the
  project is the text the readme fetch returned, with or without an error.
\<close>

lemma fetchDetails_one_per_repo:
  "snd (fetchDetails sched tasks) = None \<and>
   length (fst (fetchDetails sched tasks)) = length tasks \<and>
   mset (fst (fetchDetails sched tasks)) = mset (map worker tasks) \<and>
   (\<forall>t. raw_Name (worker t) = repo_Name (task_repo t) \<and>
        (isl (task_languages t) \<longrightarrow> raw_Languages (worker t) = []) \<and>
        raw_ReadmeRaw (worker t) = fst (task_readme t))"
proof -
  have out: "fetchDetails sched tasks = (run_workers sched tasks [], None)"
    by (simp add: fetchDetails_def)
  have m: "mset (run_workers sched tasks []) = mset (map worker tasks)"
    by (simp add: mset_run_workers)
  from m have "size (mset (run_workers sched tasks [])) = size (mset (map worker tasks))"
    by simp
  then have l: "length (run_workers sched tasks []) = length tasks" by simp
  have w: "raw_Name (worker t) = repo_Name (task_repo t) \<and>
        (isl (task_languages t) \<longrightarrow> raw_Languages (worker t) = []) \<and>
        raw_ReadmeRaw (worker t) = fst (task_readme t)" for t
    by (cases "task_languages t")
       (simp_all add: worker_def ToRawProject_def sortedLanguages_def)
  from out m l w show ?thesis by simp
qed

lemma fetchDetails_sample_run:
  "fetchDetails [1] sample_tasks =
     ([\<lparr>raw_Name = ''b'', raw_Slug = ''b'', raw_GitHubURL = ''https://github.com/o/b'',
        raw_LiveURL = [], raw_Languages = [''Shell'', ''Go''], raw_ReadmeRaw = [],
        raw_RepoSize = 1, raw_PushedAt = 5\<rparr>,
       \<lparr>raw_Name = ''a'', raw_Slug = ''a'', raw_GitHubURL = ''https://github.com/o/a'',
        raw_LiveURL = [], raw_Languages = [], raw_ReadmeRaw = ''# a'',
        raw_RepoSize = 1, raw_PushedAt = 5\<rparr>], None) \<and>
   length (fst (fetchDetails [1] sample_tasks)) = length sample_tasks \<and>
   isl (task_languages (hd sample_tasks)) \<and>
   raw_Languages (worker (hd sample_tasks)) = []"
proof -
  have run: "fetchDetails [1] sample_tasks =
     ([\<lparr>raw_Name = ''b'', raw_Slug = ''b'', raw_GitHubURL = ''https://github.com/o/b'',
        raw_LiveURL = [], raw_Languages = [''Shell'', ''Go''], raw_ReadmeRaw = [],
        raw_RepoSize = 1, raw_PushedAt = 5\<rparr>,
       \<lparr>raw_Name = ''a'', raw_Slug = ''a'', raw_GitHubURL = ''https://github.com/o/a'',
        raw_LiveURL = [], raw_Languages = [], raw_ReadmeRaw = ''# a'',
        raw_RepoSize = 1, raw_PushedAt = 5\<rparr>], None)"
    by (simp add: fetchDetails_def sample_tasks_def sample_repo_def worker_def
        ToRawProject_def sortedLanguages_def)
  have f: "isl (task_languages (hd sample_tasks))"
    by (simp add: sample_tasks_def)
  from fetchDetails_one_per_repo [of "[1]" sample_tasks] run f
  show ?thesis by simp
qed

text \<open>
  C7. One \<^verbatim>\<open>RawProject\<close> per repo, no error and the empty language list after a failed
  language fetch hold (\<open>fetchDetails_one_per_repo\<close>). The empty text after a failed readme
  fetch does not: the goroutine resets \<^verbatim>\<open>languages\<close> when \<^verbatim>\<open>GetRepoLanguages\<close> fails,
  but after a failed \<^verbatim>\<open>GetRepoREADME\<close> it only logs and passes on the text that came with
  the error. Here that text is \<^verbatim>\<open>partial text\<close>, and it is the readme of the project
  returned, in every order of completion.
\<close>

theorem fetchDetails_keeps_readme_of_failed_fetch:
  "fetchDetails sched
     [\<lparr>task_repo = sample_repo ''a'', task_languages = Inr [(''Go'', 10)],
       task_readme = (''partial text'', Some ''unexpected EOF'')\<rparr>]
   = ([\<lparr>raw_Name = ''a'', raw_Slug = ''a'', raw_GitHubURL = ''https://github.com/o/a'',
        raw_LiveURL = [], raw_Languages = [''Go''], raw_ReadmeRaw = ''partial text'',
        raw_RepoSize = 1, raw_PushedAt = 5\<rparr>], None)"
proof (cases sched)
  case Nil
  then show ?thesis
    by (simp add: fetchDetails_def sample_repo_def worker_def ToRawProject_def
        sortedLanguages_def)
next
  case (Cons c cs)
  then show ?thesis
    by (simp add: fetchDetails_def sample_repo_def worker_def ToRawProject_def
        sortedLanguages_def)
qed

end
